theory Spec2Isabelle
  imports Complex_Main
begin

section \<open>The simplicial mesh of Base/Geom/Mesh.cxx\<close>

text \<open>
  A shallow embedding of class \<open>Mesh\<close>. Scalars are real numbers (the source computes
  in double precision; rounding is not modelled), an \<open>UnsignedInteger\<close> is a natural
  number (sizes never reach the 64-bit bound), a \<open>Point\<close> is the list of its coordinates,
  a \<open>Sample\<close> the list of its points, an \<open>Indices\<close> a list of naturals and an
  \<open>IndicesCollection\<close> a list of those. The description strings carried by a sample
  are left out: no query below reads them.

  The containers of the source do not check their subscripts: reading \<open>vertices_[i]\<close>
  beyond the size is undefined behaviour of the C++ program. The model reads with
  \<open>xs ! i\<close>, which says nothing out of range: where a result below depends on such a
  read, the statement carries the hypothesis that keeps it in range (a valid mesh, an
  index below a size), and every example evaluated below reads in range only.
\<close>

type_synonym Scalar = real
type_synonym Point = "Scalar list"
type_synonym Sample = "Point list"
type_synonym Indices = "nat list"
type_synonym IndicesCollection = "Indices list"
type_synonym SquareMatrix = "Scalar list list"

subsection \<open>Exceptions\<close>

text \<open>
  An exception carries its class and the items streamed into it with \<open><<\<close>, in order:
  string literals and numbers.
\<close>

datatype ExceptionKind = InvalidArgument | OutOfRange | Internal

datatype MessageItem = Str string | Num nat

datatype Exception = Exception (kind: ExceptionKind) (what: "MessageItem list")

definition raises :: "ExceptionKind \<Rightarrow> Exception + 'a \<Rightarrow> bool" where
  "raises k r = (case r of Inl e \<Rightarrow> kind e = k | Inr _ \<Rightarrow> False)"

definition bind_result :: "Exception + 'a \<Rightarrow> ('a \<Rightarrow> Exception + 'b) \<Rightarrow> Exception + 'b" where
  "bind_result r f = (case r of Inl e \<Rightarrow> Inl e | Inr x \<Rightarrow> f x)"

subsection \<open>Collaborators that are not part of Mesh.cxx\<close>

text \<open>
  \<open>SpecFunc::MaxScalar\<close> is declared outside the files at hand; it is the largest finite
  double, \<open>std::numeric_limits<double>::max()\<close>.
\<close>

definition MaxScalar :: Scalar where
  "MaxScalar = 2 ^ 1024 - 2 ^ 971"

text \<open>\<open>Point::operator-\<close> and \<open>Point::normSquare\<close>: coordinatewise difference, sum of squares.\<close>

definition Point_minus :: "Point \<Rightarrow> Point \<Rightarrow> Point" where
  "Point_minus p q = map2 (\<lambda>x y. x - y) p q"

definition normSquare :: "Point \<Rightarrow> Scalar" where
  "normSquare v = sum_list (map (\<lambda>x. x * x) v)"

text \<open>
  Modelled from the spec: \<open>KDTree\<close>, the nearest-neighbour index over the vertices, whose
  class is not among the files. A tree is the sample it was built from; the
  default-constructed tree holds no point and is empty; a query answers the first index
  whose point is at the least squared distance.
\<close>

datatype KDTree = KDTree (points: Sample)

definition KDTree_isEmpty :: "KDTree \<Rightarrow> bool" where
  "KDTree_isEmpty t = (points t = [])"

definition KDTree_getNearestNeighbourIndex :: "KDTree \<Rightarrow> Point \<Rightarrow> nat" where
  "KDTree_getNearestNeighbourIndex t p =
     snd (fold (\<lambda>i (d, k). let di = normSquare (Point_minus p (points t ! i))
                            in if di < d then (di, i) else (d, k))
               [1..<length (points t)]
               (normSquare (Point_minus p (points t ! 0)), 0))"

text \<open>
  Modelled from the spec: \<open>Indices::check(bound)\<close>, which Mesh.cxx calls and does not
  define: every index is below the bound.
\<close>

definition Indices_check :: "Indices \<Rightarrow> nat \<Rightarrow> bool" where
  "Indices_check s bound = list_all (\<lambda>v. v < bound) s"

text \<open>
  Modelled from the spec: \<open>Sample::getMin\<close>, \<open>Sample::getMax\<close> and
  \<open>Interval::contains\<close>, the overall bounding box of the vertices and the closed-interval
  test against it. The extrema are taken coordinate by coordinate over a sample that holds
  at least one point.
\<close>

definition Sample_getMin :: "Sample \<Rightarrow> Point" where
  "Sample_getMin s = fold (\<lambda>v acc. map2 min acc v) (tl s) (hd s)"

definition Sample_getMax :: "Sample \<Rightarrow> Point" where
  "Sample_getMax s = fold (\<lambda>v acc. map2 max acc v) (tl s) (hd s)"

definition Interval_contains :: "Point \<Rightarrow> Point \<Rightarrow> Point \<Rightarrow> bool" where
  "Interval_contains lower upper p =
     list_all (\<lambda>i. lower ! i \<le> p ! i \<and> p ! i \<le> upper ! i) [0..<length p]"

text \<open>
  Modelled from the spec: \<open>TBB::ParallelReduce(from, to, body)\<close>. The range is cut into
  consecutive blocks; a block is run by the body's \<open>operator()\<close>; where the scheduler
  forks, the right part is run by a body made with the splitting constructor and joined
  into the left one afterwards (\<open>left.join(right)\<close>); where it does not fork, the same
  body goes on with the next block. How the range is cut is the scheduler's choice: it is
  the first argument, and a cut outside the range is no cut.
\<close>

datatype Partition = Whole | Fork nat Partition Partition | Continue nat Partition Partition

fun ParallelReduce ::
  "Partition \<Rightarrow> nat \<Rightarrow> nat \<Rightarrow> (nat \<Rightarrow> nat \<Rightarrow> 'f \<Rightarrow> 'f) \<Rightarrow> ('f \<Rightarrow> 'f) \<Rightarrow> ('f \<Rightarrow> 'f \<Rightarrow> 'f) \<Rightarrow> 'f \<Rightarrow> 'f"
where
  "ParallelReduce Whole b e run split join f = run b e f"
| "ParallelReduce (Fork mid l r) b e run split join f =
     (if b < mid \<and> mid < e
      then join (ParallelReduce l b mid run split join f)
                (ParallelReduce r mid e run split join (split f))
      else run b e f)"
| "ParallelReduce (Continue mid l r) b e run split join f =
     (if b < mid \<and> mid < e
      then ParallelReduce r mid e run split join (ParallelReduce l b mid run split join f)
      else run b e f)"

subsection \<open>The mesh and its accessors\<close>

record Mesh =
  dimension :: nat
  vertices :: Sample
  simplices :: IndicesCollection
  tree :: KDTree
  verticesToSimplices :: IndicesCollection
  lowerBoundingBoxSimplices :: Sample
  upperBoundingBoxSimplices :: Sample
  isAlreadyComputedVolume :: bool
  volume :: Scalar

definition getDimension :: "Mesh \<Rightarrow> nat" where
  "getDimension m = dimension m"

definition getVerticesNumber :: "Mesh \<Rightarrow> nat" where
  "getVerticesNumber m = length (vertices m)"

definition getSimplicesNumber :: "Mesh \<Rightarrow> nat" where
  "getSimplicesNumber m = length (simplices m)"

definition setVertices :: "Mesh \<Rightarrow> Sample \<Rightarrow> Mesh" where
  "setVertices m vs =
     m\<lparr>isAlreadyComputedVolume := False,
       vertices := vs,
       verticesToSimplices := [],
       lowerBoundingBoxSimplices := [],
       upperBoundingBoxSimplices := []\<rparr>"

text \<open>
  The constructors. A sample knows its dimension even when it holds no point; a list of
  points does not, so the constructors from a sample take that dimension as \<open>d\<close>.
\<close>

definition Mesh_default :: "nat \<Rightarrow> Mesh" where
  "Mesh_default d =
     \<lparr>dimension = d, vertices = [replicate d 0], simplices = [], tree = KDTree [],
      verticesToSimplices = [], lowerBoundingBoxSimplices = [],
      upperBoundingBoxSimplices = [], isAlreadyComputedVolume = False, volume = 0\<rparr>"

definition Mesh_of :: "nat \<Rightarrow> Sample \<Rightarrow> IndicesCollection \<Rightarrow> Mesh" where
  "Mesh_of d vs ss =
     setVertices
       \<lparr>dimension = d, vertices = [], simplices = ss, tree = KDTree [],
        verticesToSimplices = [], lowerBoundingBoxSimplices = [],
        upperBoundingBoxSimplices = [], isAlreadyComputedVolume = False, volume = 0\<rparr>
       vs"

definition Mesh_of_vertices :: "nat \<Rightarrow> Sample \<Rightarrow> Mesh" where
  "Mesh_of_vertices d vs = Mesh_of d vs []"

definition computeKDTree :: "Mesh \<Rightarrow> Mesh" where
  "computeKDTree m = m\<lparr>tree := KDTree (vertices m)\<rparr>"

definition getVertex :: "Mesh \<Rightarrow> nat \<Rightarrow> Exception + Point" where
  "getVertex m index =
     (if index \<ge> getVerticesNumber m
      then Inl (Exception InvalidArgument
                  [Str ''Error: the vertex index='', Num index,
                   Str '' must be less than the number of vertices='', Num (getVerticesNumber m)])
      else Inr (vertices m ! index))"

text \<open>
  \<open>setVertex\<close> compares the index with nothing: it clears the volume flag and assigns
  through the sample's unchecked subscript. The model is the assignment for an index
  below the number of vertices.
\<close>

definition setVertex :: "Mesh \<Rightarrow> nat \<Rightarrow> Point \<Rightarrow> Mesh" where
  "setVertex m index vertex =
     m\<lparr>isAlreadyComputedVolume := False, vertices := (vertices m)[index := vertex]\<rparr>"

definition setSimplices :: "Mesh \<Rightarrow> IndicesCollection \<Rightarrow> Mesh" where
  "setSimplices m ss =
     (if \<not> (ss = simplices m)
      then m\<lparr>simplices := ss,
             verticesToSimplices := [],
             lowerBoundingBoxSimplices := [],
             upperBoundingBoxSimplices := []\<rparr>
      else m)"

definition getSimplex :: "Mesh \<Rightarrow> nat \<Rightarrow> Exception + Indices" where
  "getSimplex m index =
     (if index \<ge> getSimplicesNumber m
      then Inl (Exception InvalidArgument
                  [Str ''Error: the simplex index='', Num index,
                   Str '' must be less than the number of simplices='', Num (getSimplicesNumber m)])
      else Inr (simplices m ! index))"

subsection \<open>Validity\<close>

text \<open>The loop of \<open>checkValidity\<close> over the simplices, \<open>i\<close> being the loop counter.\<close>

fun checkSimplicesFrom :: "Mesh \<Rightarrow> nat \<Rightarrow> IndicesCollection \<Rightarrow> Exception + unit" where
  "checkSimplicesFrom m i [] = Inr ()"
| "checkSimplicesFrom m i (simplex # rest) =
     (if length simplex \<noteq> getDimension m + 1
      then Inl (Exception InvalidArgument
                  [Str ''Error: mesh has dimension '', Num (getDimension m),
                   Str '' but simplex #'', Num i, Str '' has size'', Num (length simplex)])
      else if \<not> Indices_check simplex (getVerticesNumber m)
      then Inl (Exception InvalidArgument
                  [Str ''Error: mesh has '', Num (getVerticesNumber m),
                   Str '' vertices but simplex #'', Num i,
                   Str '' refers to an unknown vertex''])
      else checkSimplicesFrom m (Suc i) rest)"

definition checkValidity :: "Mesh \<Rightarrow> Exception + unit" where
  "checkValidity m = checkSimplicesFrom m 0 (simplices m)"

definition isValid :: "Mesh \<Rightarrow> bool" where
  "isValid m = (case checkValidity m of Inl _ \<Rightarrow> False | Inr _ \<Rightarrow> True)"

subsection \<open>Nearest vertex\<close>

text \<open>
  \<open>NearestFunctor\<close>: the body of the reduction. Both constructors start from
  \<open>MaxScalar\<close> and index 0; \<open>operator()\<close> walks a block in increasing order and
  replaces the current minimum on a strictly smaller squared distance; \<open>join\<close> takes
  the other body's minimum when it is strictly smaller.
\<close>

record NearestFunctor =
  minDistance :: Scalar
  minIndex :: nat

definition NearestFunctor_init :: NearestFunctor where
  "NearestFunctor_init = \<lparr>minDistance = MaxScalar, minIndex = 0\<rparr>"

definition NearestFunctor_split :: "NearestFunctor \<Rightarrow> NearestFunctor" where
  "NearestFunctor_split other = \<lparr>minDistance = MaxScalar, minIndex = 0\<rparr>"

definition NearestFunctor_step :: "Mesh \<Rightarrow> Point \<Rightarrow> nat \<Rightarrow> NearestFunctor \<Rightarrow> NearestFunctor" where
  "NearestFunctor_step m p i f =
     (let d = normSquare (Point_minus p (vertices m ! i))
      in if d < minDistance f then \<lparr>minDistance = d, minIndex = i\<rparr> else f)"

definition NearestFunctor_run ::
  "Mesh \<Rightarrow> Point \<Rightarrow> nat \<Rightarrow> nat \<Rightarrow> NearestFunctor \<Rightarrow> NearestFunctor" where
  "NearestFunctor_run m p b e f = fold (NearestFunctor_step m p) [b..<e] f"

definition NearestFunctor_join :: "NearestFunctor \<Rightarrow> NearestFunctor \<Rightarrow> NearestFunctor" where
  "NearestFunctor_join f other =
     (if minDistance other < minDistance f
      then \<lparr>minDistance = minDistance other, minIndex = minIndex other\<rparr>
      else f)"

definition getNearestVertexIndex :: "Partition \<Rightarrow> Mesh \<Rightarrow> Point \<Rightarrow> Exception + nat" where
  "getNearestVertexIndex part m p =
     (if length p \<noteq> getDimension m
      then Inl (Exception InvalidArgument
                  [Str ''Error: expected a point of dimension '', Num (getDimension m),
                   Str '', got a point of dimension '', Num (length p)])
      else if \<not> KDTree_isEmpty (tree m)
      then Inr (KDTree_getNearestNeighbourIndex (tree m) p)
      else Inr (minIndex
                  (ParallelReduce part 0 (getVerticesNumber m) (NearestFunctor_run m p)
                     NearestFunctor_split NearestFunctor_join NearestFunctor_init)))"

subsection \<open>Incidence map and bounding boxes\<close>

text \<open>
  \<open>getVerticesToSimplicesMap\<close> is three nested loops over the simplices \<open>i\<close>, the
  entries \<open>index\<close> of a simplex and the coordinates \<open>k\<close>. The caches are mutable members
  of a const object: each loop body maps a mesh to the mesh with the caches updated.
\<close>

definition updateBounds :: "nat \<Rightarrow> nat \<Rightarrow> nat \<Rightarrow> Mesh \<Rightarrow> Mesh" where
  "updateBounds i index k m =
     (let m1 = (if vertices m ! index ! k < lowerBoundingBoxSimplices m ! i ! k
                then m\<lparr>lowerBoundingBoxSimplices :=
                         (lowerBoundingBoxSimplices m)
                           [i := (lowerBoundingBoxSimplices m ! i)[k := vertices m ! index ! k]]\<rparr>
                else m)
      in if vertices m1 ! index ! k > upperBoundingBoxSimplices m1 ! i ! k
         then m1\<lparr>upperBoundingBoxSimplices :=
                   (upperBoundingBoxSimplices m1)
                     [i := (upperBoundingBoxSimplices m1 ! i)[k := vertices m1 ! index ! k]]\<rparr>
         else m1)"

definition visitVertex :: "nat \<Rightarrow> nat \<Rightarrow> Mesh \<Rightarrow> Mesh" where
  "visitVertex i index m =
     (let m1 = fold (updateBounds i index) [0..<dimension m] m
      in m1\<lparr>verticesToSimplices :=
               (verticesToSimplices m1)[index := verticesToSimplices m1 ! index @ [i]]\<rparr>)"

definition visitSimplex :: "nat \<Rightarrow> Mesh \<Rightarrow> Mesh" where
  "visitSimplex i m = fold (visitVertex i) (simplices m ! i) m"

definition getVerticesToSimplicesMap :: "Mesh \<Rightarrow> IndicesCollection \<times> Mesh" where
  "getVerticesToSimplicesMap m =
     (if length (verticesToSimplices m) > 0 then (verticesToSimplices m, m)
      else
        let numSimplices = getSimplicesNumber m;
            numVertices = getVerticesNumber m;
            m0 = m\<lparr>verticesToSimplices := replicate numVertices [],
                   lowerBoundingBoxSimplices := replicate numSimplices (replicate (dimension m) MaxScalar),
                   upperBoundingBoxSimplices := replicate numSimplices (replicate (dimension m) (- MaxScalar))\<rparr>;
            m1 = fold visitSimplex [0..<numSimplices] m0
        in (verticesToSimplices m1, m1))"

subsection \<open>Point in simplex, containment\<close>

definition getLowerBound :: "Mesh \<Rightarrow> Point" where
  "getLowerBound m = Sample_getMin (vertices m)"

definition getUpperBound :: "Mesh \<Rightarrow> Point" where
  "getUpperBound m = Sample_getMax (vertices m)"

text \<open>
  The simplex matrix, as its list of rows: entry \<open>(i, j)\<close> is coordinate \<open>i\<close> of the
  \<open>j\<close>-th vertex of the simplex for \<open>i < dimension\<close>, and the last row holds ones.
\<close>

definition buildSimplexMatrix :: "Mesh \<Rightarrow> nat \<Rightarrow> Exception + SquareMatrix" where
  "buildSimplexMatrix m index =
     (if index \<ge> getSimplicesNumber m
      then Inl (Exception InvalidArgument
                  [Str ''Error: the simplex index='', Num index,
                   Str '' must be less than the number of simplices='', Num (getSimplicesNumber m)])
      else Inr (map (\<lambda>i. map (\<lambda>j. vertices m ! (simplices m ! index ! j) ! i) [0..<dimension m + 1])
                    [0..<dimension m]
                @ [replicate (dimension m + 1) 1]))"

text \<open>
  \<open>SquareMatrix::solveLinearSystem\<close> belongs to the linear algebra layer, outside the
  files at hand: it is the parameter \<open>solve\<close>, which answers a vector or raises. The
  out-parameter \<open>coordinates\<close> is an argument and part of the result: it is assigned by
  the solve only, so an early exit on the bounding boxes hands it back as it came.
\<close>

definition outsideBoundingBox :: "Mesh \<Rightarrow> Point \<Rightarrow> nat \<Rightarrow> bool" where
  "outsideBoundingBox m p index =
     list_ex (\<lambda>i. p ! i < lowerBoundingBoxSimplices m ! index ! i
                 \<or> p ! i > upperBoundingBoxSimplices m ! index ! i)
             [0..<dimension m]"

definition checkPointInSimplexWithCoordinates ::
  "(SquareMatrix \<Rightarrow> Point \<Rightarrow> Exception + Point) \<Rightarrow> Mesh \<Rightarrow> Point \<Rightarrow> nat \<Rightarrow> Point
     \<Rightarrow> Exception + bool \<times> Point" where
  "checkPointInSimplexWithCoordinates solve m p index coordinates =
     (if length (lowerBoundingBoxSimplices m) > 0 \<and> outsideBoundingBox m p index
      then Inr (False, coordinates)
      else bind_result (buildSimplexMatrix m index) (\<lambda>matrix.
           bind_result (solve matrix (p @ [1])) (\<lambda>c.
           Inr (\<not> list_ex (\<lambda>i. c ! i < 0 \<or> c ! i > 1) [0..<dimension m + 1], c))))"

definition checkPointInSimplex ::
  "(SquareMatrix \<Rightarrow> Point \<Rightarrow> Exception + Point) \<Rightarrow> Mesh \<Rightarrow> Point \<Rightarrow> nat \<Rightarrow> Exception + bool" where
  "checkPointInSimplex solve m p index =
     bind_result (checkPointInSimplexWithCoordinates solve m p index []) (\<lambda>r. Inr (fst r))"

text \<open>A loop of \<open>contains\<close>: the first simplex of the list that holds the point ends it.\<close>

fun anySimplexContains ::
  "(SquareMatrix \<Rightarrow> Point \<Rightarrow> Exception + Point) \<Rightarrow> Mesh \<Rightarrow> Point \<Rightarrow> Indices \<Rightarrow> Exception + bool" where
  "anySimplexContains solve m p [] = Inr False"
| "anySimplexContains solve m p (i # rest) =
     bind_result (checkPointInSimplex solve m p i) (\<lambda>inside.
       if inside then Inr True else anySimplexContains solve m p rest)"

definition ensureVerticesToSimplicesMap :: "Mesh \<Rightarrow> Mesh" where
  "ensureVerticesToSimplicesMap m =
     (if length (verticesToSimplices m) = 0 then snd (getVerticesToSimplicesMap m) else m)"

definition contains_point ::
  "Partition \<Rightarrow> (SquareMatrix \<Rightarrow> Point \<Rightarrow> Exception + Point) \<Rightarrow> Mesh \<Rightarrow> Point
     \<Rightarrow> Exception + bool \<times> Mesh" where
  "contains_point part solve m p =
     (if \<not> Interval_contains (getLowerBound m) (getUpperBound m) p then Inr (False, m)
      else bind_result (getNearestVertexIndex part m p) (\<lambda>nearestIndex.
           let m1 = ensureVerticesToSimplicesMap m;
               simplicesCandidates = verticesToSimplices m1 ! nearestIndex
           in bind_result (anySimplexContains solve m1 p simplicesCandidates) (\<lambda>found.
                if found then Inr (True, m1)
                else bind_result (anySimplexContains solve m1 p [0..<getSimplicesNumber m1]) (\<lambda>found'.
                       Inr (found', m1)))))"

text \<open>
  The candidate loop of \<open>getNearestVertexAndSimplexIndicesWithCoordinates\<close>: it stops at
  the first candidate that holds the point and carries \<open>coordinates\<close> along.
\<close>

fun searchCandidates ::
  "(SquareMatrix \<Rightarrow> Point \<Rightarrow> Exception + Point) \<Rightarrow> Mesh \<Rightarrow> Point \<Rightarrow> Indices \<Rightarrow> Point
     \<Rightarrow> Exception + nat option \<times> Point" where
  "searchCandidates solve m p [] coordinates = Inr (None, coordinates)"
| "searchCandidates solve m p (simplexIndex # rest) coordinates =
     bind_result (checkPointInSimplexWithCoordinates solve m p simplexIndex coordinates) (\<lambda>r.
       if fst r then Inr (Some simplexIndex, snd r)
       else searchCandidates solve m p rest (snd r))"

definition getNearestVertexAndSimplexIndicesWithCoordinates ::
  "Partition \<Rightarrow> (SquareMatrix \<Rightarrow> Point \<Rightarrow> Exception + Point) \<Rightarrow> Mesh \<Rightarrow> Point
     \<Rightarrow> Exception + (Indices \<times> Point) \<times> Mesh" where
  "getNearestVertexAndSimplexIndicesWithCoordinates part solve m p =
     (if length p \<noteq> getDimension m
      then Inl (Exception InvalidArgument
                  [Str ''Error: expected a point of dimension '', Num (getDimension m),
                   Str '', got a point of dimension '', Num (length p)])
      else bind_result (getNearestVertexIndex part m p) (\<lambda>nearestIndex.
           let m1 = ensureVerticesToSimplicesMap m;
               simplicesCandidates = verticesToSimplices m1 ! nearestIndex
           in bind_result (searchCandidates solve m1 p simplicesCandidates []) (\<lambda>r.
                case fst r of
                  Some simplexIndex \<Rightarrow> Inr (([nearestIndex, simplexIndex], snd r), m1)
                | None \<Rightarrow> Inr (([nearestIndex], []), m1))))"

subsection \<open>Volumes and weights\<close>

text \<open>
  In dimension 1 and 2 the volume of a simplex is a closed form. Otherwise it is
  \<open>exp (log |det| - LogGamma (dimension + 1))\<close>, where the logarithm of the absolute
  determinant comes from the linear algebra layer (the parameter \<open>logAbsDet\<close>) and
  \<open>LogGamma (n + 1)\<close> is the logarithm of \<open>n!\<close>.
\<close>

definition computeSimplexVolume :: "(SquareMatrix \<Rightarrow> Scalar) \<Rightarrow> Mesh \<Rightarrow> nat \<Rightarrow> Exception + Scalar" where
  "computeSimplexVolume logAbsDet m index =
     (if index \<ge> getSimplicesNumber m
      then Inl (Exception InvalidArgument
                  [Str ''Error: the simplex index='', Num index,
                   Str '' must be less than the number of simplices='', Num (getSimplicesNumber m)])
      else if getDimension m = 1
      then (let x0 = vertices m ! (simplices m ! index ! 0) ! 0;
                x1 = vertices m ! (simplices m ! index ! 1) ! 0
            in Inr \<bar>x1 - x0\<bar>)
      else if getDimension m = 2
      then (let x0 = vertices m ! (simplices m ! index ! 0) ! 0;
                y0 = vertices m ! (simplices m ! index ! 0) ! 1;
                x1 = vertices m ! (simplices m ! index ! 1) ! 0;
                y1 = vertices m ! (simplices m ! index ! 1) ! 1;
                x2 = vertices m ! (simplices m ! index ! 2) ! 0;
                y2 = vertices m ! (simplices m ! index ! 2) ! 1
            in Inr (0.5 * \<bar>(x2 - x0) * (y1 - y0) - (x0 - x1) * (y2 - y0)\<bar>))
      else bind_result (buildSimplexMatrix m index) (\<lambda>matrix.
             Inr (exp (logAbsDet matrix - ln (fact (dimension m))))))"

text \<open>
  \<open>VolumeFunctor\<close>: the accumulator of the reduction. An exception thrown by
  \<open>computeSimplexVolume\<close> leaves the reduction, so the accumulator is a sum or the
  exception.
\<close>

definition VolumeFunctor_step ::
  "(SquareMatrix \<Rightarrow> Scalar) \<Rightarrow> Mesh \<Rightarrow> nat \<Rightarrow> Exception + Scalar \<Rightarrow> Exception + Scalar" where
  "VolumeFunctor_step logAbsDet m i accumulator =
     bind_result accumulator (\<lambda>a.
     bind_result (computeSimplexVolume logAbsDet m i) (\<lambda>v. Inr (a + v)))"

definition VolumeFunctor_run ::
  "(SquareMatrix \<Rightarrow> Scalar) \<Rightarrow> Mesh \<Rightarrow> nat \<Rightarrow> nat \<Rightarrow> Exception + Scalar \<Rightarrow> Exception + Scalar" where
  "VolumeFunctor_run logAbsDet m b e accumulator =
     fold (VolumeFunctor_step logAbsDet m) [b..<e] accumulator"

definition VolumeFunctor_split :: "Exception + Scalar \<Rightarrow> Exception + Scalar" where
  "VolumeFunctor_split other = Inr 0"

definition VolumeFunctor_join :: "Exception + Scalar \<Rightarrow> Exception + Scalar \<Rightarrow> Exception + Scalar" where
  "VolumeFunctor_join accumulator other =
     bind_result accumulator (\<lambda>a. bind_result other (\<lambda>b. Inr (a + b)))"

definition computeVolume ::
  "Partition \<Rightarrow> (SquareMatrix \<Rightarrow> Scalar) \<Rightarrow> Mesh \<Rightarrow> Exception + Scalar \<times> Mesh" where
  "computeVolume part logAbsDet m =
     bind_result
       (ParallelReduce part 0 (getSimplicesNumber m) (VolumeFunctor_run logAbsDet m)
          VolumeFunctor_split VolumeFunctor_join (Inr 0))
       (\<lambda>accumulator. Inr (accumulator, m\<lparr>isAlreadyComputedVolume := True\<rparr>))"

definition getVolume ::
  "Partition \<Rightarrow> (SquareMatrix \<Rightarrow> Scalar) \<Rightarrow> Mesh \<Rightarrow> Exception + Scalar \<times> Mesh" where
  "getVolume part logAbsDet m =
     (if \<not> isAlreadyComputedVolume m
      then bind_result (computeVolume part logAbsDet m) (\<lambda>r. Inr (fst r, (snd r)\<lparr>volume := fst r\<rparr>))
      else Inr (volume m, m))"

text \<open>The first loop of \<open>computeWeights\<close>: the volumes of the simplices, in order.\<close>

fun simplicesVolumes ::
  "(SquareMatrix \<Rightarrow> Scalar) \<Rightarrow> Mesh \<Rightarrow> nat list \<Rightarrow> Exception + Scalar list" where
  "simplicesVolumes logAbsDet m [] = Inr []"
| "simplicesVolumes logAbsDet m (i # rest) =
     bind_result (computeSimplexVolume logAbsDet m i) (\<lambda>v.
     bind_result (simplicesVolumes logAbsDet m rest) (\<lambda>vs. Inr (v # vs)))"

definition computeWeights :: "(SquareMatrix \<Rightarrow> Scalar) \<Rightarrow> Mesh \<Rightarrow> Exception + Point \<times> Mesh" where
  "computeWeights logAbsDet m =
     bind_result (simplicesVolumes logAbsDet m [0..<getSimplicesNumber m]) (\<lambda>simplicesVolume.
       let r = getVerticesToSimplicesMap m;
           verticesToSimplices = fst r;
           weights = map (\<lambda>i. fold (\<lambda>j weight. weight + simplicesVolume ! j)
                                      (verticesToSimplices ! i) 0)
                         [0..<getVerticesNumber m]
       in Inr (map (\<lambda>w. w / (real (dimension m) + 1)) weights, snd r))"

subsection \<open>Linear systems\<close>

text \<open>
  What \<open>solveLinearSystem\<close> is asked for: a vector \<open>x\<close> whose product with the matrix
  is the right-hand side.
\<close>

definition matrixVectorProduct :: "SquareMatrix \<Rightarrow> Point \<Rightarrow> Point" where
  "matrixVectorProduct M x = map (\<lambda>row. sum_list (map2 (\<lambda>a b. a * b) row x)) M"

text \<open>
  A solver for the systems of two equations that meshes of dimension 1 lead to, by
  Cramer's rule. It stands for the parameter \<open>solve\<close> in the examples; a singular matrix
  and any other size raise.
\<close>

fun solve2x2 :: "SquareMatrix \<Rightarrow> Point \<Rightarrow> Exception + Point" where
  "solve2x2 [[a, b], [c, d]] [e, f] =
     (if a * d - b * c = 0 then Inl (Exception Internal [Str ''Error: the matrix is singular''])
      else Inr [(e * d - b * f) / (a * d - b * c), (a * f - e * c) / (a * d - b * c)])"
| "solve2x2 M v = Inl (Exception Internal [Str ''Error: not a system of two equations''])"

section \<open>Accessors and validity: the verified properties\<close>

subsection \<open>Index access\<close>

text \<open>
  Claim C3, as stated: reading a vertex or a simplex at an index that is not below the
  number of vertices (simplices) fails with an \<open>OutOfRange\<close> error. On the default mesh
  of dimension 1 (one vertex, no simplex) \<open>getVertex\<close> at index 1 and \<open>getSimplex\<close> at
  index 0 raise \<open>InvalidArgument\<close>, and not \<open>OutOfRange\<close>.
\<close>

theorem getVertex_not_OutOfRange:
  "raises InvalidArgument (getVertex (Mesh_default 1) 1)
   \<and> \<not> raises OutOfRange (getVertex (Mesh_default 1) 1)
   \<and> raises InvalidArgument (getSimplex (Mesh_default 1) 0)
   \<and> \<not> raises OutOfRange (getSimplex (Mesh_default 1) 0)"
  by (simp add: raises_def getVertex_def getSimplex_def Mesh_default_def
      getVerticesNumber_def getSimplicesNumber_def)

text \<open>
  Claim C3, amended: \<open>getVertex\<close> and \<open>getSimplex\<close> at an index that is not below the
  number of vertices (simplices) fail with an \<open>InvalidArgument\<close> error whose message
  names the index and the bound.
\<close>

theorem index_access_out_of_range:
  "(index \<ge> getVerticesNumber m \<longrightarrow>
      getVertex m index =
        Inl (Exception InvalidArgument
               [Str ''Error: the vertex index='', Num index,
                Str '' must be less than the number of vertices='', Num (getVerticesNumber m)]))
   \<and> (index \<ge> getSimplicesNumber m \<longrightarrow>
      getSimplex m index =
        Inl (Exception InvalidArgument
               [Str ''Error: the simplex index='', Num index,
                Str '' must be less than the number of simplices='', Num (getSimplicesNumber m)]))"
  by (simp add: getVertex_def getSimplex_def)

theorem index_access_out_of_range_witness:
  "getVertex (Mesh_default 1) 1 =
     Inl (Exception InvalidArgument
            [Str ''Error: the vertex index='', Num 1,
             Str '' must be less than the number of vertices='', Num 1])
   \<and> getSimplex (Mesh_default 1) 0 =
     Inl (Exception InvalidArgument
            [Str ''Error: the simplex index='', Num 0,
             Str '' must be less than the number of simplices='', Num 0])"
  using index_access_out_of_range [of "Mesh_default 1" 1]
        index_access_out_of_range [of "Mesh_default 1" 0]
  by (simp add: Mesh_default_def getVerticesNumber_def getSimplicesNumber_def)

subsection \<open>Setters and caches\<close>

lemma setVertices_tree: "tree (setVertices m vs) = tree m"
  by (simp add: setVertices_def)

text \<open>
  Claim C4 asks that \<open>setVertices\<close> reset the spatial index with the other caches. The
  code at a mesh of two vertices whose tree was built by \<open>computeKDTree\<close>, the vertices
  then replaced by the single point 5: the tree still indexes the two old vertices, it is
  not empty, and the nearest vertex of the point 1 is answered from it as index 1, where
  the mesh has one vertex.
\<close>

theorem setVertices_leaves_stale_tree:
  "tree (setVertices (computeKDTree (Mesh_of_vertices 1 [[0], [1]])) [[5]]) = KDTree [[0], [1]]
   \<and> \<not> KDTree_isEmpty (tree (setVertices (computeKDTree (Mesh_of_vertices 1 [[0], [1]])) [[5]]))
   \<and> vertices (setVertices (computeKDTree (Mesh_of_vertices 1 [[0], [1]])) [[5]]) = [[5]]
   \<and> getNearestVertexIndex part (setVertices (computeKDTree (Mesh_of_vertices 1 [[0], [1]])) [[5]]) [1]
       = Inr 1
   \<and> getVerticesNumber (setVertices (computeKDTree (Mesh_of_vertices 1 [[0], [1]])) [[5]]) = 1"
  by (simp add: setVertices_def computeKDTree_def Mesh_of_vertices_def Mesh_of_def KDTree_isEmpty_def
      getNearestVertexIndex_def getDimension_def KDTree_getNearestNeighbourIndex_def
      normSquare_def Point_minus_def getVerticesNumber_def)

text \<open>
  Claim C6: \<open>setSimplices\<close> with the simplices the mesh already holds changes nothing, so
  the simplices, the incidence map, the bounding boxes and the memoized volume stay as
  they were; with other simplices it stores them and empties the incidence map and the
  bounding boxes.
\<close>

theorem setSimplices_same_or_different:
  "(ss = simplices m \<longrightarrow> setSimplices m ss = m)
   \<and> (ss \<noteq> simplices m \<longrightarrow>
        simplices (setSimplices m ss) = ss
        \<and> verticesToSimplices (setSimplices m ss) = []
        \<and> lowerBoundingBoxSimplices (setSimplices m ss) = []
        \<and> upperBoundingBoxSimplices (setSimplices m ss) = [])"
  by (simp add: setSimplices_def)

theorem setSimplices_same_or_different_witness:
  "setSimplices (snd (getVerticesToSimplicesMap (Mesh_of 1 [[0], [1], [2]] [[0, 1]]))) [[0, 1]]
     = snd (getVerticesToSimplicesMap (Mesh_of 1 [[0], [1], [2]] [[0, 1]]))
   \<and> verticesToSimplices
        (setSimplices (snd (getVerticesToSimplicesMap (Mesh_of 1 [[0], [1], [2]] [[0, 1]]))) [[0, 1]])
     = [[0], [0], []]
   \<and> verticesToSimplices
        (setSimplices (snd (getVerticesToSimplicesMap (Mesh_of 1 [[0], [1], [2]] [[0, 1]]))) [[1, 2]])
     = []"
  using setSimplices_same_or_different
          [of "[[0, 1]]" "snd (getVerticesToSimplicesMap (Mesh_of 1 [[0], [1], [2]] [[0, 1]]))"]
        setSimplices_same_or_different
          [of "[[1, 2]]" "snd (getVerticesToSimplicesMap (Mesh_of 1 [[0], [1], [2]] [[0, 1]]))"]
  by (simp add: getVerticesToSimplicesMap_def Mesh_of_def setVertices_def getSimplicesNumber_def
      getVerticesNumber_def visitSimplex_def visitVertex_def updateBounds_def MaxScalar_def Let_def)

subsection \<open>Validity\<close>

lemma checkSimplicesFrom_ok:
  "checkSimplicesFrom m i ss = Inr () \<longleftrightarrow>
     (\<forall>s\<in>set ss. length s = getDimension m + 1 \<and> Indices_check s (getVerticesNumber m))"
  by (induction ss arbitrary: i) auto

lemma checkSimplicesFrom_kind:
  "checkSimplicesFrom m i ss = Inl e \<Longrightarrow> kind e = InvalidArgument"
  by (induction ss arbitrary: i) (auto split: if_splits)

lemma Indices_check_iff: "Indices_check s b \<longleftrightarrow> (\<forall>v\<in>set s. v < b)"
  by (simp add: Indices_check_def list_all_iff)

lemma checkValidity_ok:
  "checkValidity m = Inr () \<longleftrightarrow>
     (\<forall>s\<in>set (simplices m). length s = getDimension m + 1
                              \<and> (\<forall>v\<in>set s. v < getVerticesNumber m))"
  by (simp add: checkValidity_def checkSimplicesFrom_ok Indices_check_iff)

text \<open>
  Claim C9: \<open>isValid\<close> answers true exactly when \<open>checkValidity\<close> raises nothing;
  \<open>checkValidity\<close> raises exactly when some simplex has a number of entries other than
  \<open>dimension + 1\<close> or an entry that is not below the number of vertices; what it raises is
  an \<open>InvalidArgument\<close> error; a mesh without simplices is valid.
\<close>

theorem checkValidity_characterised:
  "(isValid m \<longleftrightarrow> checkValidity m = Inr ())
   \<and> ((\<exists>e. checkValidity m = Inl e) \<longleftrightarrow>
        (\<exists>s\<in>set (simplices m). length s \<noteq> getDimension m + 1
                                  \<or> (\<exists>v\<in>set s. v \<ge> getVerticesNumber m)))
   \<and> (\<forall>e. checkValidity m = Inl e \<longrightarrow> kind e = InvalidArgument)
   \<and> (simplices m = [] \<longrightarrow> isValid m)"
proof -
  have valid: "isValid m \<longleftrightarrow> checkValidity m = Inr ()"
    by (cases "checkValidity m") (simp_all add: isValid_def)
  have err: "(\<exists>e. checkValidity m = Inl e) \<longleftrightarrow> checkValidity m \<noteq> Inr ()"
    by (cases "checkValidity m") simp_all
  have kindInv: "\<forall>e. checkValidity m = Inl e \<longrightarrow> kind e = InvalidArgument"
    by (auto simp: checkValidity_def dest: checkSimplicesFrom_kind)
  show ?thesis
    using checkValidity_ok [of m] valid err kindInv by (auto simp: not_less)
qed

theorem checkValidity_characterised_witness:
  "isValid (Mesh_of 1 [[0], [1]] [[0, 1]])
   \<and> checkValidity (Mesh_of 1 [[0], [1]] [[0, 1]]) = Inr ()
   \<and> \<not> isValid (Mesh_of 1 [[0], [1]] [[0, 2]])
   \<and> isValid (Mesh_of_vertices 1 [[0], [1]])"
  using checkValidity_characterised [of "Mesh_of 1 [[0], [1]] [[0, 1]]"]
        checkValidity_characterised [of "Mesh_of 1 [[0], [1]] [[0, 2]]"]
        checkValidity_characterised [of "Mesh_of_vertices 1 [[0], [1]]"]
  by (simp add: Mesh_of_def Mesh_of_vertices_def setVertices_def getDimension_def
      getVerticesNumber_def checkValidity_def Indices_check_def)

section \<open>Nearest vertex: the brute-force reduction\<close>

lemma NearestFunctor_run_le:
  "minDistance (fold (NearestFunctor_step m p) xs f) \<le> minDistance f"
proof (induction xs arbitrary: f)
  case Nil
  show ?case by simp
next
  case (Cons x xs)
  have "minDistance (NearestFunctor_step m p x f) \<le> minDistance f"
    by (simp add: NearestFunctor_step_def Let_def)
  with Cons [of "NearestFunctor_step m p x f"] show ?case by simp
qed

lemma NearestFunctor_join_smaller:
  "minDistance h < minDistance f \<Longrightarrow>
   NearestFunctor_join f (fold (NearestFunctor_step m p) xs h) = fold (NearestFunctor_step m p) xs h"
  using NearestFunctor_run_le [of m p xs h]
  by (simp add: NearestFunctor_join_def)

lemma NearestFunctor_join_run:
  "minDistance f \<le> minDistance g \<Longrightarrow>
   NearestFunctor_join f (fold (NearestFunctor_step m p) xs g) = fold (NearestFunctor_step m p) xs f"
proof (induction xs arbitrary: f g)
  case Nil
  then show ?case by (simp add: NearestFunctor_join_def)
next
  case (Cons x xs)
  let ?d = "normSquare (Point_minus p (vertices m ! x))"
  show ?case
  proof (cases "?d < minDistance f")
    case True
    with Cons.prems have eq: "NearestFunctor_step m p x g = NearestFunctor_step m p x f"
      by (simp add: NearestFunctor_step_def Let_def)
    from True have "minDistance (NearestFunctor_step m p x f) < minDistance f"
      by (simp add: NearestFunctor_step_def Let_def)
    then show ?thesis
      using NearestFunctor_join_smaller [of "NearestFunctor_step m p x f" f m p xs] eq by simp
  next
    case False
    then have same: "NearestFunctor_step m p x f = f"
      by (simp add: NearestFunctor_step_def Let_def)
    from False Cons.prems have "minDistance f \<le> minDistance (NearestFunctor_step m p x g)"
      by (simp add: NearestFunctor_step_def Let_def)
    from Cons.IH [OF this] same show ?thesis by simp
  qed
qed

lemma NearestFunctor_run_split:
  "b \<le> mid \<Longrightarrow> mid \<le> e \<Longrightarrow>
   NearestFunctor_run m p b e f = NearestFunctor_run m p mid e (NearestFunctor_run m p b mid f)"
proof -
  assume "b \<le> mid" "mid \<le> e"
  then have "[b..<e] = [b..<mid] @ [mid..<e]"
    by (metis le_Suc_ex upt_add_eq_append)
  then show ?thesis by (simp add: NearestFunctor_run_def)
qed

lemma ParallelReduce_nearest:
  "minDistance f \<le> MaxScalar \<Longrightarrow>
   ParallelReduce part b e (NearestFunctor_run m p) NearestFunctor_split NearestFunctor_join f
     = NearestFunctor_run m p b e f"
proof (induction part arbitrary: b e f)
  case Whole
  show ?case by simp
next
  case (Fork mid l r)
  show ?case
  proof (cases "b < mid \<and> mid < e")
    case False
    then show ?thesis by auto
  next
    case True
    have left: "ParallelReduce l b mid (NearestFunctor_run m p) NearestFunctor_split NearestFunctor_join f
          = NearestFunctor_run m p b mid f"
      using Fork.IH(1) Fork.prems by simp
    have right: "ParallelReduce r mid e (NearestFunctor_run m p) NearestFunctor_split NearestFunctor_join
            (NearestFunctor_split f)
          = NearestFunctor_run m p mid e (NearestFunctor_split f)"
    proof (rule Fork.IH(2))
      show "minDistance (NearestFunctor_split f) \<le> MaxScalar"
        by (simp add: NearestFunctor_split_def)
    qed
    have "minDistance (NearestFunctor_run m p b mid f) \<le> minDistance (NearestFunctor_split f)"
      using NearestFunctor_run_le [of m p "[b..<mid]" f] Fork.prems
      by (simp add: NearestFunctor_run_def NearestFunctor_split_def)
    then have "NearestFunctor_join (NearestFunctor_run m p b mid f)
                 (NearestFunctor_run m p mid e (NearestFunctor_split f))
               = NearestFunctor_run m p mid e (NearestFunctor_run m p b mid f)"
      unfolding NearestFunctor_run_def [of m p mid e] by (rule NearestFunctor_join_run)
    with True left right show ?thesis
      using NearestFunctor_run_split [of b mid e m p f] by simp
  qed
next
  case (Continue mid l r)
  show ?case
  proof (cases "b < mid \<and> mid < e")
    case False
    then show ?thesis by auto
  next
    case True
    have left: "ParallelReduce l b mid (NearestFunctor_run m p) NearestFunctor_split NearestFunctor_join f
          = NearestFunctor_run m p b mid f"
      using Continue.IH(1) Continue.prems by simp
    have "minDistance (NearestFunctor_run m p b mid f) \<le> MaxScalar"
      using NearestFunctor_run_le [of m p "[b..<mid]" f] Continue.prems
      by (simp add: NearestFunctor_run_def)
    from Continue.IH(2) [OF this] True left show ?thesis
      using NearestFunctor_run_split [of b mid e m p f] by simp
  qed
qed

lemma NearestFunctor_sequential:
  fixes m p
  defines "d \<equiv> \<lambda>i. normSquare (Point_minus p (vertices m ! i))"
  defines "r \<equiv> \<lambda>n. fold (NearestFunctor_step m p) [0..<n] NearestFunctor_init"
  shows "minDistance (r n) \<le> MaxScalar
     \<and> (\<forall>j<n. minDistance (r n) \<le> d j)
     \<and> ((minDistance (r n) = MaxScalar \<and> minIndex (r n) = 0)
        \<or> (minIndex (r n) < n \<and> d (minIndex (r n)) = minDistance (r n)
            \<and> minDistance (r n) < MaxScalar
            \<and> (\<forall>j<minIndex (r n). minDistance (r n) < d j)))"
proof (induction n)
  case 0
  show ?case by (simp add: r_def NearestFunctor_init_def)
next
  case (Suc n)
  have step: "r (Suc n) = NearestFunctor_step m p n (r n)"
    by (simp add: r_def)
  show ?case
  proof (cases "d n < minDistance (r n)")
    case True
    then have new: "r (Suc n) = \<lparr>minDistance = d n, minIndex = n\<rparr>"
      by (simp add: step NearestFunctor_step_def d_def Let_def)
    from True Suc have "\<forall>j<n. d n < d j" by fastforce
    with True Suc show ?thesis
      unfolding new by (auto simp: less_Suc_eq)
  next
    case False
    then have same: "r (Suc n) = r n"
      by (simp add: step NearestFunctor_step_def d_def Let_def)
    from False Suc show ?thesis
      unfolding same by (auto simp: less_Suc_eq)
  qed
qed

text \<open>
  Claim C2, amended. A query point whose dimension is not the mesh's fails with
  \<open>InvalidArgument\<close>. For a point of the mesh's dimension and a mesh with no spatial
  index, whatever the partition of the range the answer is the index found by the
  sequential left-to-right fold over all the vertices. The search starts from
  \<open>MaxScalar\<close> and replaces on a strictly smaller squared distance only. So when the
  mesh has at least one vertex and no squared distance exceeds \<open>MaxScalar\<close>, or when
  some squared distance is below \<open>MaxScalar\<close>, the answer is the index of a vertex, no
  vertex is at a smaller squared distance, and every vertex of lower index is at a
  strictly greater one; and when no squared distance is below \<open>MaxScalar\<close> the answer
  is index 0.
\<close>

theorem getNearestVertexIndex_brute_force:
  "(length p \<noteq> getDimension m \<longrightarrow> raises InvalidArgument (getNearestVertexIndex part m p))
   \<and> (length p = getDimension m \<and> KDTree_isEmpty (tree m)
      \<longrightarrow> getNearestVertexIndex part m p
            = Inr (minIndex (fold (NearestFunctor_step m p) [0..<getVerticesNumber m]
                               NearestFunctor_init)))
   \<and> (length p = getDimension m \<and> KDTree_isEmpty (tree m) \<and> vertices m \<noteq> []
      \<and> (\<forall>i<getVerticesNumber m. normSquare (Point_minus p (vertices m ! i)) \<le> MaxScalar)
      \<longrightarrow> (\<exists>k. getNearestVertexIndex part m p = Inr k
               \<and> k < getVerticesNumber m
               \<and> (\<forall>j<getVerticesNumber m.
                     normSquare (Point_minus p (vertices m ! k)) \<le> normSquare (Point_minus p (vertices m ! j)))
               \<and> (\<forall>j<k.
                     normSquare (Point_minus p (vertices m ! k)) < normSquare (Point_minus p (vertices m ! j)))))
   \<and> (length p = getDimension m \<and> KDTree_isEmpty (tree m)
      \<and> (\<exists>i<getVerticesNumber m. normSquare (Point_minus p (vertices m ! i)) < MaxScalar)
      \<longrightarrow> (\<exists>k. getNearestVertexIndex part m p = Inr k
               \<and> k < getVerticesNumber m
               \<and> (\<forall>j<getVerticesNumber m.
                     normSquare (Point_minus p (vertices m ! k)) \<le> normSquare (Point_minus p (vertices m ! j)))
               \<and> (\<forall>j<k.
                     normSquare (Point_minus p (vertices m ! k)) < normSquare (Point_minus p (vertices m ! j)))))
   \<and> (length p = getDimension m \<and> KDTree_isEmpty (tree m)
      \<and> (\<forall>i<getVerticesNumber m. MaxScalar \<le> normSquare (Point_minus p (vertices m ! i)))
      \<longrightarrow> getNearestVertexIndex part m p = Inr 0)"
proof -
  let ?n = "getVerticesNumber m"
  let ?d = "\<lambda>i. normSquare (Point_minus p (vertices m ! i))"
  let ?r = "fold (NearestFunctor_step m p) [0..<?n] NearestFunctor_init"
  let ?best = "\<lambda>k. k < ?n \<and> (\<forall>j<?n. ?d k \<le> ?d j) \<and> (\<forall>j<k. ?d k < ?d j)"
  note inv = NearestFunctor_sequential [of m p ?n]
  have mismatch: "length p \<noteq> getDimension m \<longrightarrow> raises InvalidArgument (getNearestVertexIndex part m p)"
    by (simp add: getNearestVertexIndex_def raises_def)
  have res: "length p = getDimension m \<and> KDTree_isEmpty (tree m)
      \<longrightarrow> getNearestVertexIndex part m p = Inr (minIndex ?r)"
    using ParallelReduce_nearest [of NearestFunctor_init part 0 ?n m p]
    by (simp add: getNearestVertexIndex_def NearestFunctor_init_def NearestFunctor_run_def)
  have moved: "\<not> (minDistance ?r = MaxScalar \<and> minIndex ?r = 0) \<Longrightarrow> ?best (minIndex ?r)"
    using inv by metis
  have bounded: "vertices m \<noteq> [] \<and> (\<forall>i<?n. ?d i \<le> MaxScalar) \<longrightarrow> ?best (minIndex ?r)"
  proof
    assume a: "vertices m \<noteq> [] \<and> (\<forall>i<?n. ?d i \<le> MaxScalar)"
    then have pos: "0 < ?n" by (simp add: getVerticesNumber_def)
    show "?best (minIndex ?r)"
    proof (cases "minDistance ?r = MaxScalar \<and> minIndex ?r = 0")
      case True
      with inv a have "\<forall>j<?n. ?d j = MaxScalar" by (metis order_antisym)
      with True pos show ?thesis by simp
    next
      case False
      then show ?thesis by (rule moved)
    qed
  qed
  have below: "(\<exists>i<?n. ?d i < MaxScalar) \<longrightarrow> ?best (minIndex ?r)"
  proof
    assume "\<exists>i<?n. ?d i < MaxScalar"
    then obtain i where "i < ?n" "?d i < MaxScalar" by blast
    with inv have "minDistance ?r < MaxScalar" by (metis le_less_trans)
    then have "\<not> (minDistance ?r = MaxScalar \<and> minIndex ?r = 0)" by simp
    then show "?best (minIndex ?r)" by (rule moved)
  qed
  have none: "(\<forall>i<?n. MaxScalar \<le> ?d i) \<longrightarrow> minIndex ?r = 0"
  proof
    assume a: "\<forall>i<?n. MaxScalar \<le> ?d i"
    show "minIndex ?r = 0"
    proof (rule ccontr)
      assume "minIndex ?r \<noteq> 0"
      with inv have "minIndex ?r < ?n" "?d (minIndex ?r) < MaxScalar" by metis+
      with a show False by (metis not_less)
    qed
  qed
  from mismatch res bounded below none show ?thesis by simp
qed

theorem getNearestVertexIndex_brute_force_witness:
  "getNearestVertexIndex (Fork 2 Whole (Continue 3 Whole Whole)) (Mesh_of_vertices 1 [[0], [3], [1], [3]]) [2]
     = Inr 1
   \<and> raises InvalidArgument
       (getNearestVertexIndex (Fork 2 Whole (Continue 3 Whole Whole))
          (Mesh_of_vertices 1 [[0], [3], [1], [3]]) [2, 2])
   \<and> getNearestVertexIndex (Fork 1 Whole Whole) (Mesh_of_vertices 1 [[2 ^ 600], [0]]) [- (2 ^ 600)]
     = Inr 0"
  using getNearestVertexIndex_brute_force
          [of "[2]" "Mesh_of_vertices 1 [[0], [3], [1], [3]]" "Fork 2 Whole (Continue 3 Whole Whole)"]
        getNearestVertexIndex_brute_force
          [of "[2, 2]" "Mesh_of_vertices 1 [[0], [3], [1], [3]]" "Fork 2 Whole (Continue 3 Whole Whole)"]
        getNearestVertexIndex_brute_force
          [of "[- (2 ^ 600)]" "Mesh_of_vertices 1 [[2 ^ 600], [0]]" "Fork 1 Whole Whole"]
  by (simp add: Mesh_of_vertices_def Mesh_of_def setVertices_def getDimension_def getVerticesNumber_def
      KDTree_isEmpty_def normSquare_def Point_minus_def MaxScalar_def NearestFunctor_step_def
      NearestFunctor_init_def upt_rec less_Suc_eq numeral_nat)

text \<open>
  Claim C2, as stated, asks for a vertex at the least squared distance on every mesh with
  a vertex. The mesh of dimension 1 with the vertices \<open>3 * 2^600\<close> and \<open>2^600\<close>, queried
  at \<open>- 2^600\<close>: both squared distances are above \<open>MaxScalar\<close>, so no vertex replaces
  the starting index and the answer is 0, though vertex 1 is strictly nearer.
\<close>

theorem getNearestVertexIndex_beyond_MaxScalar:
  "getNearestVertexIndex Whole (Mesh_of_vertices 1 [[3 * 2 ^ 600], [2 ^ 600]]) [- (2 ^ 600)] = Inr 0
   \<and> normSquare (Point_minus [- (2 ^ 600)] [2 ^ 600])
       < normSquare (Point_minus [- (2 ^ 600)] [3 * 2 ^ 600])"
  by (simp add: getNearestVertexIndex_def Mesh_of_vertices_def Mesh_of_def setVertices_def
      getDimension_def getVerticesNumber_def KDTree_isEmpty_def
      NearestFunctor_run_def NearestFunctor_step_def NearestFunctor_init_def
      normSquare_def Point_minus_def MaxScalar_def Let_def upt_rec)

section \<open>Incidence map: the verified properties\<close>

lemma updateBounds_frame:
  "verticesToSimplices (updateBounds i index k m) = verticesToSimplices m
   \<and> simplices (updateBounds i index k m) = simplices m
   \<and> vertices (updateBounds i index k m) = vertices m
   \<and> dimension (updateBounds i index k m) = dimension m"
  by (simp add: updateBounds_def Let_def)

lemma fold_updateBounds_frame:
  "verticesToSimplices (fold (updateBounds i index) ks m) = verticesToSimplices m
   \<and> simplices (fold (updateBounds i index) ks m) = simplices m
   \<and> vertices (fold (updateBounds i index) ks m) = vertices m
   \<and> dimension (fold (updateBounds i index) ks m) = dimension m"
  by (induction ks arbitrary: m) (simp_all add: updateBounds_frame)

lemma visitVertex_frame:
  "simplices (visitVertex i index m) = simplices m
   \<and> vertices (visitVertex i index m) = vertices m
   \<and> dimension (visitVertex i index m) = dimension m
   \<and> length (verticesToSimplices (visitVertex i index m)) = length (verticesToSimplices m)"
  by (simp add: visitVertex_def Let_def fold_updateBounds_frame)

lemma visitVertex_incidence:
  "v < length (verticesToSimplices m) \<Longrightarrow>
   verticesToSimplices (visitVertex i index m) ! v
     = verticesToSimplices m ! v @ (if v = index then [i] else [])"
  by (simp add: visitVertex_def Let_def fold_updateBounds_frame)

lemma fold_visitVertex_frame:
  "simplices (fold (visitVertex i) xs m) = simplices m
   \<and> vertices (fold (visitVertex i) xs m) = vertices m
   \<and> dimension (fold (visitVertex i) xs m) = dimension m
   \<and> length (verticesToSimplices (fold (visitVertex i) xs m)) = length (verticesToSimplices m)"
  by (induction xs arbitrary: m) (simp_all add: visitVertex_frame)

lemma fold_visitVertex_incidence:
  "v < length (verticesToSimplices m) \<Longrightarrow>
   verticesToSimplices (fold (visitVertex i) xs m) ! v
     = verticesToSimplices m ! v @ replicate (count_list xs v) i"
proof (induction xs arbitrary: m)
  case Nil
  show ?case by simp
next
  case (Cons x xs)
  have "v < length (verticesToSimplices (visitVertex i x m))"
    using Cons.prems by (simp add: visitVertex_frame)
  from Cons.IH [OF this] Cons.prems show ?case
    by (simp add: visitVertex_incidence replicate_app_Cons_same)
qed

lemma visitSimplex_frame:
  "simplices (visitSimplex i m) = simplices m
   \<and> vertices (visitSimplex i m) = vertices m
   \<and> dimension (visitSimplex i m) = dimension m
   \<and> length (verticesToSimplices (visitSimplex i m)) = length (verticesToSimplices m)"
  by (simp add: visitSimplex_def fold_visitVertex_frame)

lemma fold_visitSimplex_frame:
  "simplices (fold visitSimplex is m) = simplices m
   \<and> vertices (fold visitSimplex is m) = vertices m
   \<and> dimension (fold visitSimplex is m) = dimension m
   \<and> length (verticesToSimplices (fold visitSimplex is m)) = length (verticesToSimplices m)"
  by (induction "is" arbitrary: m) (simp_all add: visitSimplex_frame)

lemma fold_visitSimplex_incidence:
  "v < length (verticesToSimplices m) \<Longrightarrow>
   verticesToSimplices (fold visitSimplex is m) ! v
     = verticesToSimplices m ! v
       @ concat (map (\<lambda>i. replicate (count_list (simplices m ! i) v) i) is)"
proof (induction "is" arbitrary: m)
  case Nil
  show ?case by simp
next
  case (Cons i "is")
  have "v < length (verticesToSimplices (visitSimplex i m))"
    using Cons.prems by (simp add: visitSimplex_frame)
  from Cons.IH [OF this] Cons.prems show ?case
    by (simp add: visitSimplex_frame) (simp add: visitSimplex_def fold_visitVertex_incidence)
qed

text \<open>The map that the three loops build, in closed form.\<close>

lemma getVerticesToSimplicesMap_built:
  assumes "verticesToSimplices m = []"
  shows "length (fst (getVerticesToSimplicesMap m)) = getVerticesNumber m"
    and "v < getVerticesNumber m \<Longrightarrow>
         fst (getVerticesToSimplicesMap m) ! v
           = concat (map (\<lambda>i. replicate (count_list (simplices m ! i) v) i)
                         [0..<getSimplicesNumber m])"
    and "verticesToSimplices (snd (getVerticesToSimplicesMap m)) = fst (getVerticesToSimplicesMap m)"
    and "simplices (snd (getVerticesToSimplicesMap m)) = simplices m"
    and "vertices (snd (getVerticesToSimplicesMap m)) = vertices m"
    and "dimension (snd (getVerticesToSimplicesMap m)) = dimension m"
  using assms
  by (simp_all add: getVerticesToSimplicesMap_def Let_def fold_visitSimplex_frame
      fold_visitSimplex_incidence)


lemma getVerticesToSimplicesMap_cached:
  assumes "verticesToSimplices m = []
           \<or> verticesToSimplices m = fst (getVerticesToSimplicesMap (m\<lparr>verticesToSimplices := []\<rparr>))"
  shows "fst (getVerticesToSimplicesMap m) = fst (getVerticesToSimplicesMap (m\<lparr>verticesToSimplices := []\<rparr>))"
    and "verticesToSimplices (snd (getVerticesToSimplicesMap m)) = fst (getVerticesToSimplicesMap m)"
    and "simplices (snd (getVerticesToSimplicesMap m)) = simplices m"
    and "vertices (snd (getVerticesToSimplicesMap m)) = vertices m"
    and "dimension (snd (getVerticesToSimplicesMap m)) = dimension m"
proof -
  show "fst (getVerticesToSimplicesMap m) = fst (getVerticesToSimplicesMap (m\<lparr>verticesToSimplices := []\<rparr>))"
  proof (cases "verticesToSimplices m = []")
    case True
    then have "m\<lparr>verticesToSimplices := []\<rparr> = m" by simp
    then show ?thesis by simp
  next
    case False
    with assms show ?thesis by (simp add: getVerticesToSimplicesMap_def [of m])
  qed
  show "verticesToSimplices (snd (getVerticesToSimplicesMap m)) = fst (getVerticesToSimplicesMap m)"
    by (simp add: getVerticesToSimplicesMap_def Let_def)
  show "simplices (snd (getVerticesToSimplicesMap m)) = simplices m"
    by (simp add: getVerticesToSimplicesMap_def Let_def fold_visitSimplex_frame)
  show "vertices (snd (getVerticesToSimplicesMap m)) = vertices m"
    by (simp add: getVerticesToSimplicesMap_def Let_def fold_visitSimplex_frame)
  show "dimension (snd (getVerticesToSimplicesMap m)) = dimension m"
    by (simp add: getVerticesToSimplicesMap_def Let_def fold_visitSimplex_frame)
qed

lemma incidence_list:
  assumes "verticesToSimplices m = []
           \<or> verticesToSimplices m = fst (getVerticesToSimplicesMap (m\<lparr>verticesToSimplices := []\<rparr>))"
  shows "length (fst (getVerticesToSimplicesMap m)) = getVerticesNumber m"
    and "v < getVerticesNumber m \<Longrightarrow>
         fst (getVerticesToSimplicesMap m) ! v
           = concat (map (\<lambda>i. replicate (count_list (simplices m ! i) v) i)
                         [0..<getSimplicesNumber m])"
  using getVerticesToSimplicesMap_cached(1) [OF assms]
        getVerticesToSimplicesMap_built(1) [of "m\<lparr>verticesToSimplices := []\<rparr>"]
        getVerticesToSimplicesMap_built(2) [of "m\<lparr>verticesToSimplices := []\<rparr>" v]
  by (simp_all add: getVerticesNumber_def getSimplicesNumber_def)

lemma blocks_set:
  "set (concat (map (\<lambda>i. replicate (c i) i) [a..<b])) = {i. a \<le> i \<and> i < b \<and> 0 < c i}"
  by auto

lemma count_list_pos_iff: "0 < count_list xs v \<longleftrightarrow> v \<in> set xs"
  by (induction xs) auto

lemma incidence_list_members:
  assumes "verticesToSimplices m = []
           \<or> verticesToSimplices m = fst (getVerticesToSimplicesMap (m\<lparr>verticesToSimplices := []\<rparr>))"
    and "v < getVerticesNumber m"
  shows "set (fst (getVerticesToSimplicesMap m) ! v)
           = {i. i < getSimplicesNumber m \<and> v \<in> set (simplices m ! i)}"
proof -
  have "set (fst (getVerticesToSimplicesMap m) ! v)
          = {i. 0 \<le> i \<and> i < getSimplicesNumber m \<and> 0 < count_list (simplices m ! i) v}"
    using incidence_list(2) [OF assms] by (simp only: blocks_set)
  also have "\<dots> = {i. i < getSimplicesNumber m \<and> v \<in> set (simplices m ! i)}"
    by (simp add: count_list_pos_iff)
  finally show ?thesis .
qed

lemma blocks_sorted:
  "sorted (concat (map (\<lambda>i. replicate (c i) i) [0..<b]))"
proof (induction b)
  case 0
  show ?case by simp
next
  case (Suc b)
  then show ?case by (auto simp: sorted_append)
qed

lemma blocks_strictly_sorted:
  "(\<forall>i<b. c i \<le> Suc 0) \<Longrightarrow> sorted_wrt (<) (concat (map (\<lambda>i. replicate (c i) i) [0..<b]))"
proof (induction b)
  case 0
  show ?case by simp
next
  case (Suc b)
  have "c b = 0 \<or> c b = Suc 0" using Suc.prems by (auto simp: le_Suc_eq)
  with Suc show ?case by (auto simp: sorted_wrt_append)
qed

lemma distinct_count_list_le: "distinct xs \<Longrightarrow> count_list xs v \<le> Suc 0"
  by (induction xs) auto

text \<open>
  Claim C10, amended. The incidence cache is either not built yet or what the loops
  build from the present simplices, and the entries of the simplices are indices of
  vertices (an entry beyond them makes the source write out of bounds). Then every list of
  the map returned by \<open>getVerticesToSimplicesMap\<close> is sorted in non-decreasing order of
  simplex index, and in strictly increasing order when no simplex repeats a vertex.
\<close>

theorem incidence_lists_sorted:
  "(verticesToSimplices m = []
      \<or> verticesToSimplices m = fst (getVerticesToSimplicesMap (m\<lparr>verticesToSimplices := []\<rparr>)))
   \<and> (\<forall>s\<in>set (simplices m). \<forall>x\<in>set s. x < getVerticesNumber m)
   \<and> v < getVerticesNumber m
   \<longrightarrow> sorted (fst (getVerticesToSimplicesMap m) ! v)
       \<and> ((\<forall>s\<in>set (simplices m). distinct s) \<longrightarrow>
             sorted_wrt (<) (fst (getVerticesToSimplicesMap m) ! v))"
proof (intro impI conjI)
  assume a: "(verticesToSimplices m = []
      \<or> verticesToSimplices m = fst (getVerticesToSimplicesMap (m\<lparr>verticesToSimplices := []\<rparr>)))
   \<and> (\<forall>s\<in>set (simplices m). \<forall>x\<in>set s. x < getVerticesNumber m)
   \<and> v < getVerticesNumber m"
  then have form: "fst (getVerticesToSimplicesMap m) ! v
      = concat (map (\<lambda>i. replicate (count_list (simplices m ! i) v) i) [0..<getSimplicesNumber m])"
    using incidence_list(2) by blast
  show "sorted (fst (getVerticesToSimplicesMap m) ! v)"
    unfolding form by (rule blocks_sorted)
  assume d: "\<forall>s\<in>set (simplices m). distinct s"
  have "\<forall>i<getSimplicesNumber m. count_list (simplices m ! i) v \<le> Suc 0"
    using d by (simp add: getSimplicesNumber_def distinct_count_list_le)
  then show "sorted_wrt (<) (fst (getVerticesToSimplicesMap m) ! v)"
    unfolding form by (rule blocks_strictly_sorted)
qed

text \<open>
  Claim C10, as stated, asks for strictly increasing lists on every mesh. The mesh with
  vertices 0 and 1 and the single simplex \<open>(0, 0)\<close>: the simplex is appended once for
  each of its entries, so the list of vertex 0 is \<open>[0, 0]\<close>.
\<close>

theorem incidence_list_repeats_simplex:
  "fst (getVerticesToSimplicesMap (Mesh_of 1 [[0], [1]] [[0, 0]])) = [[0, 0], []]
   \<and> \<not> sorted_wrt (<) (fst (getVerticesToSimplicesMap (Mesh_of 1 [[0], [1]] [[0, 0]])) ! 0)"
  by (simp add: getVerticesToSimplicesMap_def Mesh_of_def setVertices_def getSimplicesNumber_def
      getVerticesNumber_def visitSimplex_def visitVertex_def updateBounds_def MaxScalar_def Let_def)

theorem incidence_lists_sorted_witness:
  "sorted_wrt (<) (fst (getVerticesToSimplicesMap (Mesh_of 1 [[0], [1], [3]] [[0, 1], [1, 2]])) ! 1)
   \<and> fst (getVerticesToSimplicesMap (Mesh_of 1 [[0], [1], [3]] [[0, 1], [1, 2]])) = [[0], [0, 1], [1]]
   \<and> sorted (fst (getVerticesToSimplicesMap (Mesh_of 1 [[0], [1]] [[0, 0]])) ! 0)"
  using incidence_lists_sorted [of "Mesh_of 1 [[0], [1], [3]] [[0, 1], [1, 2]]" 1]
        incidence_lists_sorted [of "Mesh_of 1 [[0], [1]] [[0, 0]]" 0]
  by (simp add: getVerticesToSimplicesMap_def Mesh_of_def setVertices_def getSimplicesNumber_def
      getVerticesNumber_def visitSimplex_def visitVertex_def updateBounds_def MaxScalar_def Let_def
      upt_rec)

section \<open>Volumes and weights: the verified properties\<close>

lemma computeSimplexVolume_no_raise:
  "index < getSimplicesNumber m \<Longrightarrow> computeSimplexVolume logAbsDet m index \<noteq> Inl e"
  by (simp add: computeSimplexVolume_def buildSimplexMatrix_def bind_result_def Let_def)

lemma computeSimplexVolume_returns:
  "index < getSimplicesNumber m \<Longrightarrow> \<exists>v. computeSimplexVolume logAbsDet m index = Inr v"
  using computeSimplexVolume_no_raise [of index m logAbsDet]
  by (cases "computeSimplexVolume logAbsDet m index") auto

lemma VolumeFunctor_step_raise:
  "computeSimplexVolume logAbsDet m i = Inl e \<Longrightarrow> VolumeFunctor_step logAbsDet m i (Inr a) = Inl e"
  by (simp add: VolumeFunctor_step_def bind_result_def)

lemma VolumeFunctor_step_add:
  "computeSimplexVolume logAbsDet m i = Inr v \<Longrightarrow>
   VolumeFunctor_step logAbsDet m i (Inr a) = Inr (a + v)"
  by (simp add: VolumeFunctor_step_def bind_result_def)

lemma VolumeFunctor_run_raised:
  "fold (VolumeFunctor_step logAbsDet m) xs (Inl e) = Inl e"
  by (induction xs) (simp_all add: VolumeFunctor_step_def bind_result_def)

lemma VolumeFunctor_run_shift:
  "fold (VolumeFunctor_step logAbsDet m) xs (Inr (a + b))
     = bind_result (fold (VolumeFunctor_step logAbsDet m) xs (Inr b)) (\<lambda>s. Inr (a + s))"
proof (induction xs arbitrary: b)
  case Nil
  show ?case by (simp add: bind_result_def)
next
  case (Cons x xs)
  show ?case
  proof (cases "computeSimplexVolume logAbsDet m x")
    case (Inl e)
    then show ?thesis
      by (simp add: VolumeFunctor_step_raise VolumeFunctor_run_raised bind_result_def)
  next
    case (Inr v)
    then show ?thesis
      using Cons [of "b + v"] by (simp add: VolumeFunctor_step_add add.assoc)
  qed
qed

lemma VolumeFunctor_join_run:
  "VolumeFunctor_join acc (fold (VolumeFunctor_step logAbsDet m) xs (Inr 0))
     = fold (VolumeFunctor_step logAbsDet m) xs acc"
proof (cases acc)
  case (Inl e)
  then show ?thesis by (simp add: VolumeFunctor_join_def bind_result_def VolumeFunctor_run_raised)
next
  case (Inr a)
  then show ?thesis
    using VolumeFunctor_run_shift [of logAbsDet m xs a 0]
    by (simp add: VolumeFunctor_join_def bind_result_def)
qed

lemma VolumeFunctor_run_split:
  "b \<le> mid \<Longrightarrow> mid \<le> e \<Longrightarrow>
   VolumeFunctor_run logAbsDet m b e acc
     = VolumeFunctor_run logAbsDet m mid e (VolumeFunctor_run logAbsDet m b mid acc)"
proof -
  assume "b \<le> mid" "mid \<le> e"
  then have "[b..<e] = [b..<mid] @ [mid..<e]"
    by (metis le_Suc_ex upt_add_eq_append)
  then show ?thesis by (simp add: VolumeFunctor_run_def)
qed

lemma ParallelReduce_volume:
  "ParallelReduce part b e (VolumeFunctor_run logAbsDet m) VolumeFunctor_split VolumeFunctor_join acc
     = VolumeFunctor_run logAbsDet m b e acc"
proof (induction part arbitrary: b e acc)
  case Whole
  show ?case by simp
next
  case (Fork mid l r)
  show ?case
  proof (cases "b < mid \<and> mid < e")
    case False
    then show ?thesis by auto
  next
    case True
    have "VolumeFunctor_join (VolumeFunctor_run logAbsDet m b mid acc)
            (VolumeFunctor_run logAbsDet m mid e (Inr 0))
          = VolumeFunctor_run logAbsDet m mid e (VolumeFunctor_run logAbsDet m b mid acc)"
      unfolding VolumeFunctor_run_def [of logAbsDet m mid e] by (rule VolumeFunctor_join_run)
    with True Fork.IH show ?thesis
      using VolumeFunctor_run_split [of b mid e logAbsDet m acc]
      by (simp add: VolumeFunctor_split_def)
  qed
next
  case (Continue mid l r)
  show ?case
  proof (cases "b < mid \<and> mid < e")
    case False
    then show ?thesis by auto
  next
    case True
    with Continue.IH show ?thesis
      using VolumeFunctor_run_split [of b mid e logAbsDet m acc] by simp
  qed
qed

lemma VolumeFunctor_run_sum:
  "\<forall>i\<in>set xs. computeSimplexVolume logAbsDet m i = Inr (V i) \<Longrightarrow>
   fold (VolumeFunctor_step logAbsDet m) xs (Inr a) = Inr (a + sum_list (map V xs))"
  by (induction xs arbitrary: a) (simp_all add: VolumeFunctor_step_add add.assoc)

lemma simplicesVolumes_map:
  "\<forall>i\<in>set xs. computeSimplexVolume logAbsDet m i = Inr (V i) \<Longrightarrow>
   simplicesVolumes logAbsDet m xs = Inr (map V xs)"
  by (induction xs) (simp_all add: bind_result_def)

lemma computeVolume_sum:
  "\<forall>i<getSimplicesNumber m. computeSimplexVolume logAbsDet m i = Inr (V i) \<Longrightarrow>
   computeVolume part logAbsDet m
     = Inr (sum_list (map V [0..<getSimplicesNumber m]), m\<lparr>isAlreadyComputedVolume := True\<rparr>)"
  using VolumeFunctor_run_sum [of "[0..<getSimplicesNumber m]" logAbsDet m V 0]
  by (simp add: computeVolume_def ParallelReduce_volume VolumeFunctor_run_def bind_result_def)

text \<open>
  Claim C5 asks that \<open>setSimplices\<close> with a different set invalidate the memoized
  volume. The code on the segment mesh with vertices 0, 1, 2 and the simplex \<open>(0, 1)\<close>:
  \<open>getVolume\<close> answers 1 and memoizes it; after \<open>setSimplices\<close> with the two simplices
  \<open>(0, 1)\<close> and \<open>(1, 2)\<close> the flag is still set, \<open>getVolume\<close> still answers 1 and
  recomputes nothing, while \<open>computeVolume\<close> on that mesh gives 2.
\<close>

theorem setSimplices_keeps_stale_volume:
  "getVolume part logAbsDet (Mesh_of 1 [[0], [1], [2]] [[0, 1]])
     = Inr (1, (Mesh_of 1 [[0], [1], [2]] [[0, 1]])\<lparr>isAlreadyComputedVolume := True, volume := 1\<rparr>)
   \<and> isAlreadyComputedVolume
        (setSimplices ((Mesh_of 1 [[0], [1], [2]] [[0, 1]])\<lparr>isAlreadyComputedVolume := True, volume := 1\<rparr>)
           [[0, 1], [1, 2]])
   \<and> getVolume part logAbsDet
        (setSimplices ((Mesh_of 1 [[0], [1], [2]] [[0, 1]])\<lparr>isAlreadyComputedVolume := True, volume := 1\<rparr>)
           [[0, 1], [1, 2]])
     = Inr (1, setSimplices ((Mesh_of 1 [[0], [1], [2]] [[0, 1]])\<lparr>isAlreadyComputedVolume := True, volume := 1\<rparr>)
                 [[0, 1], [1, 2]])
   \<and> computeVolume part logAbsDet
        (setSimplices ((Mesh_of 1 [[0], [1], [2]] [[0, 1]])\<lparr>isAlreadyComputedVolume := True, volume := 1\<rparr>)
           [[0, 1], [1, 2]])
     = Inr (2, setSimplices ((Mesh_of 1 [[0], [1], [2]] [[0, 1]])\<lparr>isAlreadyComputedVolume := True, volume := 1\<rparr>)
                 [[0, 1], [1, 2]])"
  by (simp add: getVolume_def computeVolume_def ParallelReduce_volume VolumeFunctor_run_def
      VolumeFunctor_step_def computeSimplexVolume_def bind_result_def Mesh_of_def setVertices_def
      setSimplices_def getSimplicesNumber_def getDimension_def upt_rec)


lemma weight_fold:
  "fold (\<lambda>j weight. weight + f j) xs (a::real) = a + sum_list (map f xs)"
  by (induction xs arbitrary: a) (simp_all add: add.assoc)

lemma blocks_sum:
  "sum_list (map f (concat (map (\<lambda>i. replicate (c i) i) xs)))
     = sum_list (map (\<lambda>i. real (c i) * f i) xs)"
  by (induction xs) (simp_all add: sum_list_replicate)

lemma count_list_total:
  assumes "\<forall>x\<in>set s. x < (N::nat)"
  shows "(\<Sum>v = 0..<N. count_list s v) = length s"
proof -
  have "set s \<subseteq> {0..<N}" using assms by auto
  then show ?thesis by (simp add: sum_count_set)
qed

lemma incidence_sum_exchange:
  assumes "\<forall>i<n. \<forall>x\<in>set (S ! i). x < (N::nat)"
  shows "sum_list (map (\<lambda>v. sum_list (map (\<lambda>i. real (count_list (S ! i) v) * f i) [0..<n])) [0..<N])
         = sum_list (map (\<lambda>i. real (length (S ! i)) * f i) [0..<n])"
proof -
  have "sum_list (map (\<lambda>v. sum_list (map (\<lambda>i. real (count_list (S ! i) v) * f i) [0..<n])) [0..<N])
        = (\<Sum>v = 0..<N. \<Sum>i = 0..<n. real (count_list (S ! i) v) * f i)"
    by (simp add: interv_sum_list_conv_sum_set_nat)
  also have "\<dots> = (\<Sum>i = 0..<n. \<Sum>v = 0..<N. real (count_list (S ! i) v) * f i)"
    by (rule sum.swap)
  also have "\<dots> = (\<Sum>i = 0..<n. real (\<Sum>v = 0..<N. count_list (S ! i) v) * f i)"
    by (simp add: sum_distrib_right)
  also have "\<dots> = (\<Sum>i = 0..<n. real (length (S ! i)) * f i)"
    using assms by (simp add: count_list_total)
  also have "\<dots> = sum_list (map (\<lambda>i. real (length (S ! i)) * f i) [0..<n])"
    by (simp add: interv_sum_list_conv_sum_set_nat)
  finally show ?thesis .
qed

lemma sum_list_divide_each:
  "sum_list (map (\<lambda>w. w / c) ws) = sum_list ws / (c::real)"
  by (induction ws) (simp_all add: add_divide_distrib)


text \<open>
  Claim C7, amended to valid meshes. When \<open>checkValidity\<close> raises nothing and the
  incidence cache is not built yet or is what the loops build from the present simplices,
  \<open>computeWeights\<close> returns one weight per vertex; the weight of a vertex is the sum of
  the volumes of the simplices of its incidence list, which are the simplices that hold
  the vertex, divided by \<open>dimension + 1\<close>; and the weights add up to the volume that
  \<open>computeVolume\<close> returns, however the reduction is partitioned.
\<close>

theorem computeWeights_mass_conservation:
  "checkValidity m = Inr ()
   \<and> (verticesToSimplices m = []
      \<or> verticesToSimplices m = fst (getVerticesToSimplicesMap (m\<lparr>verticesToSimplices := []\<rparr>)))
   \<longrightarrow> (\<exists>vols weights V.
         length vols = getSimplicesNumber m
         \<and> (\<forall>i<getSimplicesNumber m. computeSimplexVolume logAbsDet m i = Inr (vols ! i))
         \<and> computeWeights logAbsDet m = Inr (weights, snd (getVerticesToSimplicesMap m))
         \<and> length weights = getVerticesNumber m
         \<and> (\<forall>v<getVerticesNumber m.
               weights ! v
                 = sum_list (map ((!) vols) (fst (getVerticesToSimplicesMap m) ! v))
                   / (real (dimension m) + 1)
               \<and> set (fst (getVerticesToSimplicesMap m) ! v)
                   = {i. i < getSimplicesNumber m \<and> v \<in> set (simplices m ! i)})
         \<and> computeVolume part logAbsDet m = Inr (V, m\<lparr>isAlreadyComputedVolume := True\<rparr>)
         \<and> sum_list weights = V)"
proof
  let ?n = "getSimplicesNumber m"
  let ?N = "getVerticesNumber m"
  let ?S = "simplices m"
  let ?inc = "fst (getVerticesToSimplicesMap m)"
  let ?c = "real (dimension m) + 1"
  assume a: "checkValidity m = Inr ()
   \<and> (verticesToSimplices m = []
      \<or> verticesToSimplices m = fst (getVerticesToSimplicesMap (m\<lparr>verticesToSimplices := []\<rparr>)))"
  then have fresh: "verticesToSimplices m = []
      \<or> verticesToSimplices m = fst (getVerticesToSimplicesMap (m\<lparr>verticesToSimplices := []\<rparr>))"
    by simp
  from a have valid: "\<forall>i<?n. length (?S ! i) = dimension m + 1 \<and> (\<forall>x\<in>set (?S ! i). x < ?N)"
    by (auto simp: checkValidity_ok getSimplicesNumber_def getDimension_def)
  have "\<forall>i. \<exists>v. i < ?n \<longrightarrow> computeSimplexVolume logAbsDet m i = Inr v"
    using computeSimplexVolume_returns by blast
  then obtain Vf where Vf: "\<forall>i. i < ?n \<longrightarrow> computeSimplexVolume logAbsDet m i = Inr (Vf i)"
    by metis
  define vols where "vols = map Vf [0..<?n]"
  define raw where "raw = map (\<lambda>v. sum_list (map ((!) vols) (?inc ! v))) [0..<?N]"
  define weights where "weights = map (\<lambda>w. w / ?c) raw"
  have len: "length vols = ?n" by (simp add: vols_def)
  have each: "\<forall>i<?n. computeSimplexVolume logAbsDet m i = Inr (vols ! i)"
    using Vf by (simp add: vols_def)
  have sv: "simplicesVolumes logAbsDet m [0..<?n] = Inr vols"
    unfolding vols_def by (rule simplicesVolumes_map) (simp add: Vf)
  have cw: "computeWeights logAbsDet m = Inr (weights, snd (getVerticesToSimplicesMap m))"
    by (simp add: computeWeights_def sv bind_result_def Let_def weight_fold weights_def raw_def)
  have lw: "length weights = ?N" by (simp add: weights_def raw_def)
  have form: "\<forall>v<?N. ?inc ! v = concat (map (\<lambda>i. replicate (count_list (?S ! i) v) i) [0..<?n])"
    using incidence_list(2) [OF fresh] by blast
  have per: "\<forall>v<?N. weights ! v = sum_list (map ((!) vols) (?inc ! v)) / ?c
               \<and> set (?inc ! v) = {i. i < ?n \<and> v \<in> set (?S ! i)}"
  proof (intro allI impI conjI)
    fix v assume v: "v < ?N"
    then show "weights ! v = sum_list (map ((!) vols) (?inc ! v)) / ?c"
      by (simp add: weights_def raw_def)
    from v show "set (?inc ! v) = {i. i < ?n \<and> v \<in> set (?S ! i)}"
      by (rule incidence_list_members [OF fresh])
  qed
  have cv: "computeVolume part logAbsDet m = Inr (sum_list vols, m\<lparr>isAlreadyComputedVolume := True\<rparr>)"
    using computeVolume_sum [of m logAbsDet Vf part] Vf by (simp add: vols_def)
  have "raw = map (\<lambda>v. sum_list (map (\<lambda>i. real (count_list (?S ! i) v) * vols ! i) [0..<?n])) [0..<?N]"
    unfolding raw_def using form by (simp add: blocks_sum)
  then have "sum_list raw = sum_list (map (\<lambda>i. real (length (?S ! i)) * vols ! i) [0..<?n])"
    using incidence_sum_exchange [of ?n ?S ?N "(!) vols"] valid by simp
  also have "\<dots> = sum_list (map (\<lambda>i. ?c * vols ! i) [0..<?n])"
    using valid by (intro arg_cong [of _ _ sum_list] map_cong) (simp_all add: add.commute)
  also have "\<dots> = ?c * sum_list (map ((!) vols) [0..<?n])"
    by (simp add: sum_list_const_mult)
  also have "\<dots> = ?c * sum_list vols"
    using map_nth [of vols] len by simp
  finally have "sum_list raw = ?c * sum_list vols" .
  then have total: "sum_list weights = sum_list vols"
    by (simp add: weights_def sum_list_divide_each add_nonneg_eq_0_iff)
  from len each cw lw per cv total
  show "\<exists>vols weights V.
         length vols = ?n
         \<and> (\<forall>i<?n. computeSimplexVolume logAbsDet m i = Inr (vols ! i))
         \<and> computeWeights logAbsDet m = Inr (weights, snd (getVerticesToSimplicesMap m))
         \<and> length weights = ?N
         \<and> (\<forall>v<?N. weights ! v = sum_list (map ((!) vols) (?inc ! v)) / ?c
               \<and> set (?inc ! v) = {i. i < ?n \<and> v \<in> set (?S ! i)})
         \<and> computeVolume part logAbsDet m = Inr (V, m\<lparr>isAlreadyComputedVolume := True\<rparr>)
         \<and> sum_list weights = V"
    by blast
qed


theorem computeWeights_mass_conservation_witness:
  "checkValidity (Mesh_of 1 [[0], [1], [3]] [[0, 1], [1, 2]]) = Inr ()
   \<and> map_sum id fst (computeWeights (\<lambda>M. 0) (Mesh_of 1 [[0], [1], [3]] [[0, 1], [1, 2]]))
       = Inr [1 / 2, 3 / 2, 1]
   \<and> map_sum id fst
        (computeVolume (Fork 1 Whole Whole) (\<lambda>M. 0) (Mesh_of 1 [[0], [1], [3]] [[0, 1], [1, 2]]))
       = Inr 3"
  using computeWeights_mass_conservation
          [of "Mesh_of 1 [[0], [1], [3]] [[0, 1], [1, 2]]" "\<lambda>M. 0" "Fork 1 Whole Whole"]
  by (simp add: computeWeights_def computeVolume_def getVerticesToSimplicesMap_def
      VolumeFunctor_run_def VolumeFunctor_step_def VolumeFunctor_split_def VolumeFunctor_join_def
      computeSimplexVolume_def bind_result_def Mesh_of_def setVertices_def
      getSimplicesNumber_def getVerticesNumber_def getDimension_def
      checkValidity_def Indices_check_def
      visitSimplex_def visitVertex_def updateBounds_def MaxScalar_def Let_def upt_rec)

text \<open>
  Claim C7, as stated for every mesh: in dimension 1, the mesh with vertices 0, 1, 2 and
  the single simplex \<open>(0, 1, 2)\<close> of three entries has volume 1, and its three weights
  are 1/2 each.
\<close>

theorem computeWeights_oversized_simplex:
  "map_sum id fst (computeWeights (\<lambda>M. 0) (Mesh_of 1 [[0], [1], [2]] [[0, 1, 2]]))
     = Inr [1 / 2, 1 / 2, 1 / 2]
   \<and> map_sum id fst (computeVolume Whole (\<lambda>M. 0) (Mesh_of 1 [[0], [1], [2]] [[0, 1, 2]])) = Inr 1
   \<and> sum_list [1 / 2, 1 / 2, 1 / 2] \<noteq> (1::real)"
  by (simp add: computeWeights_def computeVolume_def getVerticesToSimplicesMap_def
      VolumeFunctor_run_def VolumeFunctor_step_def
      computeSimplexVolume_def bind_result_def Mesh_of_def setVertices_def
      getSimplicesNumber_def getVerticesNumber_def getDimension_def
      visitSimplex_def visitVertex_def updateBounds_def MaxScalar_def Let_def upt_rec)

section \<open>Point location: the verified properties\<close>

lemma checkPointInSimplex_coordinates:
  "checkPointInSimplexWithCoordinates solve m p i c0 = Inr (b, c) \<Longrightarrow>
   checkPointInSimplex solve m p i = Inr b"
  by (auto simp: checkPointInSimplex_def checkPointInSimplexWithCoordinates_def bind_result_def
      split: if_splits sum.splits)

lemma checkPointInSimplex_False:
  "checkPointInSimplex solve m p i = Inr False \<Longrightarrow>
   \<exists>c. checkPointInSimplexWithCoordinates solve m p i c0 = Inr (False, c)"
  by (auto simp: checkPointInSimplex_def checkPointInSimplexWithCoordinates_def bind_result_def
      split: if_splits sum.splits)

lemma checkPointInSimplexWithCoordinates_True:
  "checkPointInSimplexWithCoordinates solve m p i c0 = Inr (True, c) \<Longrightarrow>
   checkPointInSimplexWithCoordinates solve m p i c1 = Inr (True, c)
   \<and> (\<exists>M. buildSimplexMatrix m i = Inr M \<and> solve M (p @ [1]) = Inr c)"
  by (auto simp: checkPointInSimplexWithCoordinates_def bind_result_def
      split: if_splits sum.splits)

lemma searchCandidates_none:
  "\<forall>i\<in>set cands. checkPointInSimplex solve m p i = Inr False \<Longrightarrow>
   \<exists>c. searchCandidates solve m p cands c0 = Inr (None, c)"
proof (induction cands arbitrary: c0)
  case Nil
  show ?case by simp
next
  case (Cons i cands)
  then obtain c where "checkPointInSimplexWithCoordinates solve m p i c0 = Inr (False, c)"
    using checkPointInSimplex_False [of solve m p i c0] by auto
  with Cons show ?case by (simp add: bind_result_def)
qed

lemma searchCandidates_first:
  "\<forall>j\<in>set pre. checkPointInSimplex solve m p j = Inr False \<Longrightarrow>
   checkPointInSimplexWithCoordinates solve m p i [] = Inr (True, c) \<Longrightarrow>
   searchCandidates solve m p (pre @ i # post) c0 = Inr (Some i, c)"
proof (induction pre arbitrary: c0)
  case Nil
  then show ?case
    using checkPointInSimplexWithCoordinates_True [of solve m p i "[]" c c0]
    by (simp add: bind_result_def)
next
  case (Cons j pre)
  then obtain c' where "checkPointInSimplexWithCoordinates solve m p j c0 = Inr (False, c')"
    using checkPointInSimplex_False [of solve m p j c0] by auto
  with Cons show ?case by (simp add: bind_result_def)
qed

lemma ensureVerticesToSimplicesMap_incidence:
  "verticesToSimplices (ensureVerticesToSimplicesMap m) = fst (getVerticesToSimplicesMap m)"
  by (simp add: ensureVerticesToSimplicesMap_def getVerticesToSimplicesMap_def Let_def)

text \<open>
  The candidate loop, on the code's own point-in-simplex test. Let \<open>k\<close> be the index
  that \<open>getNearestVertexIndex\<close> returns for a point of the mesh's dimension, and the
  candidates the incidence list of \<open>k\<close> (built first if the cache is empty). If the test
  fails on every candidate, the result is \<open>k\<close> alone with empty coordinates, whatever the
  simplices outside the list: there is no scan of the other simplices. If the test
  succeeds on a candidate and fails on every candidate before it, the result is \<open>k\<close> and
  that candidate, with the coordinates that the solver returned for the candidate's
  simplex matrix and the point extended by 1. The candidates are the simplices that hold
  vertex \<open>k\<close> (for a cache that is empty or what the loops build from the present
  simplices). The example after it is a mesh where the only simplex does not touch the
  nearest vertex: \<open>contains\<close> answers true by its full scan, and this function answers
  the vertex alone.
\<close>

lemma nearest_vertex_and_simplex:
  "length p = getDimension m \<and> getNearestVertexIndex part m p = Inr k
   \<and> k < length (verticesToSimplices (ensureVerticesToSimplicesMap m))
   \<longrightarrow>
   ((\<forall>i\<in>set (verticesToSimplices (ensureVerticesToSimplicesMap m) ! k).
        checkPointInSimplex solve (ensureVerticesToSimplicesMap m) p i = Inr False)
      \<longrightarrow> getNearestVertexAndSimplexIndicesWithCoordinates part solve m p
            = Inr (([k], []), ensureVerticesToSimplicesMap m))
   \<and> (\<forall>pre i post c.
         verticesToSimplices (ensureVerticesToSimplicesMap m) ! k = pre @ i # post
         \<and> (\<forall>j\<in>set pre. checkPointInSimplex solve (ensureVerticesToSimplicesMap m) p j = Inr False)
         \<and> checkPointInSimplexWithCoordinates solve (ensureVerticesToSimplicesMap m) p i [] = Inr (True, c)
         \<longrightarrow> getNearestVertexAndSimplexIndicesWithCoordinates part solve m p
               = Inr (([k, i], c), ensureVerticesToSimplicesMap m)
             \<and> (\<exists>M. buildSimplexMatrix (ensureVerticesToSimplicesMap m) i = Inr M
                     \<and> solve M (p @ [1]) = Inr c))
   \<and> (verticesToSimplices m = []
        \<or> verticesToSimplices m = fst (getVerticesToSimplicesMap (m\<lparr>verticesToSimplices := []\<rparr>))
      \<longrightarrow> set (verticesToSimplices (ensureVerticesToSimplicesMap m) ! k)
            = {i. i < getSimplicesNumber m \<and> k \<in> set (simplices m ! i)})"
proof (intro impI conjI allI)
  let ?m1 = "ensureVerticesToSimplicesMap m"
  assume a: "length p = getDimension m \<and> getNearestVertexIndex part m p = Inr k
    \<and> k < length (verticesToSimplices ?m1)"
  {
    assume "\<forall>i\<in>set (verticesToSimplices ?m1 ! k). checkPointInSimplex solve ?m1 p i = Inr False"
    then obtain c where "searchCandidates solve ?m1 p (verticesToSimplices ?m1 ! k) [] = Inr (None, c)"
      using searchCandidates_none by blast
    with a show "getNearestVertexAndSimplexIndicesWithCoordinates part solve m p = Inr (([k], []), ?m1)"
      by (simp add: getNearestVertexAndSimplexIndicesWithCoordinates_def bind_result_def Let_def)
  }
  fix pre i post c
  assume b: "verticesToSimplices ?m1 ! k = pre @ i # post
         \<and> (\<forall>j\<in>set pre. checkPointInSimplex solve ?m1 p j = Inr False)
         \<and> checkPointInSimplexWithCoordinates solve ?m1 p i [] = Inr (True, c)"
  then have "searchCandidates solve ?m1 p (verticesToSimplices ?m1 ! k) [] = Inr (Some i, c)"
    using searchCandidates_first [of pre solve ?m1 p i c post "[]"] by simp
  with a show "getNearestVertexAndSimplexIndicesWithCoordinates part solve m p = Inr (([k, i], c), ?m1)"
    by (simp add: getNearestVertexAndSimplexIndicesWithCoordinates_def bind_result_def Let_def)
  from b show "\<exists>M. buildSimplexMatrix ?m1 i = Inr M \<and> solve M (p @ [1]) = Inr c"
    using checkPointInSimplexWithCoordinates_True [of solve ?m1 p i "[]" c "[]"] by simp
next
  let ?m1 = "ensureVerticesToSimplicesMap m"
  assume a: "length p = getDimension m \<and> getNearestVertexIndex part m p = Inr k
    \<and> k < length (verticesToSimplices ?m1)"
  assume fresh: "verticesToSimplices m = []
        \<or> verticesToSimplices m = fst (getVerticesToSimplicesMap (m\<lparr>verticesToSimplices := []\<rparr>))"
  from a have "k < getVerticesNumber m"
    using incidence_list(1) [OF fresh] by (simp add: ensureVerticesToSimplicesMap_incidence)
  from incidence_list_members [OF fresh this]
  show "set (verticesToSimplices ?m1 ! k) = {i. i < getSimplicesNumber m \<and> k \<in> set (simplices m ! i)}"
    by (simp add: ensureVerticesToSimplicesMap_incidence)
qed

lemma nearest_vertex_and_simplex_example:
  "getNearestVertexAndSimplexIndicesWithCoordinates Whole solve2x2 (Mesh_of 1 [[0], [10], [6]] [[0, 1]]) [5]
     = Inr (([2], []), snd (getVerticesToSimplicesMap (Mesh_of 1 [[0], [10], [6]] [[0, 1]])))
   \<and> map_sum id fst (contains_point Whole solve2x2 (Mesh_of 1 [[0], [10], [6]] [[0, 1]]) [5]) = Inr True
   \<and> getNearestVertexAndSimplexIndicesWithCoordinates Whole solve2x2 (Mesh_of 1 [[0], [10], [6]] [[0, 1]]) [1]
     = Inr (([0, 0], [9 / 10, 1 / 10]), snd (getVerticesToSimplicesMap (Mesh_of 1 [[0], [10], [6]] [[0, 1]])))"
  using nearest_vertex_and_simplex [of "[5]" "Mesh_of 1 [[0], [10], [6]] [[0, 1]]" Whole 2 solve2x2]
        nearest_vertex_and_simplex [of "[1]" "Mesh_of 1 [[0], [10], [6]] [[0, 1]]" Whole 0 solve2x2]
  by (simp add: getNearestVertexAndSimplexIndicesWithCoordinates_def contains_point_def
      getNearestVertexIndex_def ensureVerticesToSimplicesMap_def getVerticesToSimplicesMap_def
      checkPointInSimplexWithCoordinates_def checkPointInSimplex_def outsideBoundingBox_def
      buildSimplexMatrix_def Interval_contains_def getLowerBound_def getUpperBound_def
      Sample_getMin_def Sample_getMax_def KDTree_isEmpty_def
      NearestFunctor_run_def NearestFunctor_step_def NearestFunctor_init_def
      normSquare_def Point_minus_def bind_result_def Mesh_of_def setVertices_def
      getSimplicesNumber_def getVerticesNumber_def getDimension_def
      visitSimplex_def visitVertex_def updateBounds_def MaxScalar_def Let_def upt_rec)

text \<open>
  Claim C1 asks that \<open>contains\<close> answer true exactly when some simplex has barycentric
  coordinates in \<open>[0, 1]\<close> for the point. The code on the segment mesh with vertices 0
  and 1 and the simplex \<open>(0, 1)\<close>, after \<open>getVerticesToSimplicesMap\<close> has filled the
  caches and \<open>setVertex\<close> has moved vertex 1 to 2: the bounding box kept for the simplex
  is still \<open>[0, 1]\<close>, so the point 3/2 is rejected before any solve and \<open>contains\<close>
  answers false, whatever the partition and the solver. Yet the simplex matrix is
  \<open>((0, 2), (1, 1))\<close> and the coordinates of the point are 1/4 and 3/4. Without the
  cached boxes (vertex moved before the caches are built) the answer is true.
\<close>

theorem contains_misses_after_setVertex:
  "contains_point part solve
     (setVertex (snd (getVerticesToSimplicesMap (Mesh_of 1 [[0], [1]] [[0, 1]]))) 1 [2]) [3 / 2]
     = Inr (False, setVertex (snd (getVerticesToSimplicesMap (Mesh_of 1 [[0], [1]] [[0, 1]]))) 1 [2])
   \<and> buildSimplexMatrix
        (setVertex (snd (getVerticesToSimplicesMap (Mesh_of 1 [[0], [1]] [[0, 1]]))) 1 [2]) 0
     = Inr [[0, 2], [1, 1]]
   \<and> matrixVectorProduct [[0, 2], [1, 1]] [1 / 4, 3 / 4] = [3 / 2] @ [1]
   \<and> solve2x2 [[0, 2], [1, 1]] ([3 / 2] @ [1]) = Inr [1 / 4, 3 / 4]
   \<and> list_all (\<lambda>c. 0 \<le> c \<and> c \<le> 1) [1 / 4, 3 / 4 :: real]
   \<and> map_sum id fst
        (contains_point part solve2x2 (setVertex (Mesh_of 1 [[0], [1]] [[0, 1]]) 1 [2]) [3 / 2])
     = Inr True"
  by (simp add: contains_point_def setVertex_def matrixVectorProduct_def
      getNearestVertexIndex_def ensureVerticesToSimplicesMap_def getVerticesToSimplicesMap_def
      checkPointInSimplexWithCoordinates_def checkPointInSimplex_def outsideBoundingBox_def
      buildSimplexMatrix_def Interval_contains_def getLowerBound_def getUpperBound_def
      Sample_getMin_def Sample_getMax_def KDTree_isEmpty_def ParallelReduce_nearest
      NearestFunctor_run_def NearestFunctor_step_def NearestFunctor_init_def
      normSquare_def Point_minus_def bind_result_def Mesh_of_def setVertices_def
      getSimplicesNumber_def getVerticesNumber_def getDimension_def
      visitSimplex_def visitVertex_def updateBounds_def MaxScalar_def Let_def upt_rec)

text \<open>
  Claim C8 asks that, when a simplex incident to the nearest vertex contains the point,
  the function return that simplex and the barycentric coordinates. The code on the same
  mesh as above (segment \<open>(0, 1)\<close>, caches filled, vertex 1 then moved to 2), at the
  point 3/2: the nearest vertex is 1, its incidence list holds simplex 0, and the point
  has the coordinates 1/4 and 3/4 in that simplex; yet the stale bounding box rejects the
  candidate before any solve, and the function returns vertex 1 alone with empty
  coordinates, whatever the partition and the solver. With the vertex moved before the
  caches are built it returns vertex 1, simplex 0 and the coordinates 1/4 and 3/4.
\<close>

theorem nearest_simplex_missed_after_setVertex:
  "getNearestVertexAndSimplexIndicesWithCoordinates part solve
     (setVertex (snd (getVerticesToSimplicesMap (Mesh_of 1 [[0], [1]] [[0, 1]]))) 1 [2]) [3 / 2]
     = Inr (([1], []), setVertex (snd (getVerticesToSimplicesMap (Mesh_of 1 [[0], [1]] [[0, 1]]))) 1 [2])
   \<and> getNearestVertexIndex part
        (setVertex (snd (getVerticesToSimplicesMap (Mesh_of 1 [[0], [1]] [[0, 1]]))) 1 [2]) [3 / 2]
     = Inr 1
   \<and> verticesToSimplices
        (setVertex (snd (getVerticesToSimplicesMap (Mesh_of 1 [[0], [1]] [[0, 1]]))) 1 [2]) ! 1 = [0]
   \<and> simplices
        (setVertex (snd (getVerticesToSimplicesMap (Mesh_of 1 [[0], [1]] [[0, 1]]))) 1 [2]) ! 0 = [0, 1]
   \<and> buildSimplexMatrix
        (setVertex (snd (getVerticesToSimplicesMap (Mesh_of 1 [[0], [1]] [[0, 1]]))) 1 [2]) 0
     = Inr [[0, 2], [1, 1]]
   \<and> matrixVectorProduct [[0, 2], [1, 1]] [1 / 4, 3 / 4] = [3 / 2] @ [1]
   \<and> list_all (\<lambda>c. 0 \<le> c \<and> c \<le> 1) [1 / 4, 3 / 4 :: real]
   \<and> map_sum id fst
        (getNearestVertexAndSimplexIndicesWithCoordinates part solve2x2
           (setVertex (Mesh_of 1 [[0], [1]] [[0, 1]]) 1 [2]) [3 / 2])
     = Inr ([1, 0], [1 / 4, 3 / 4])"
  by (simp add: getNearestVertexAndSimplexIndicesWithCoordinates_def setVertex_def
      matrixVectorProduct_def
      getNearestVertexIndex_def ensureVerticesToSimplicesMap_def getVerticesToSimplicesMap_def
      checkPointInSimplexWithCoordinates_def outsideBoundingBox_def
      buildSimplexMatrix_def KDTree_isEmpty_def ParallelReduce_nearest
      NearestFunctor_run_def NearestFunctor_step_def NearestFunctor_init_def
      normSquare_def Point_minus_def bind_result_def Mesh_of_def setVertices_def
      getSimplicesNumber_def getVerticesNumber_def getDimension_def
      visitSimplex_def visitVertex_def updateBounds_def MaxScalar_def Let_def upt_rec)

end
